theory Spec2Isabelle
  imports Main "HOL-Library.Sublist"
begin

section \<open>Python values, errors and the environment\<close>

text \<open>
  The program is \<^verbatim>\<open>src/utility/generate_static_ocp_settings.py\<close>. Its configuration is a
  \<^verbatim>\<open>dicta\<close>, a dictionary whose values are dynamically typed; the values that occur are
  modelled by \<open>pyval\<close>. A \<^verbatim>\<open>datetime\<close> is a subclass of \<^verbatim>\<open>date\<close>, and
  \<^verbatim>\<open>bool\<close> is a subclass of \<^verbatim>\<open>int\<close>, which \<open>isinstance\<close> below respects.
\<close>

record date =
  year :: int
  month :: int
  day :: int

record datetime =
  dt_date :: date
  hour :: nat
  minute :: nat
  second :: nat

datatype pyval =
    VNone
  | VBool bool
  | VInt int
  | VStr string
  | VList "pyval list"
  | VDate date
  | VDateTime datetime

datatype error =
    FileNotFoundError string
  | DateRangeArgsError string
  | ParserError string
  | TypeError string
  | KeyError string
  | ValueError
  | IndexError




section \<open>handle_args\<close>





section \<open>validate_config\<close>

datatype pytype = TDate | TList | TInt

text \<open>\<^verbatim>\<open>validator[k].__name__\<close>\<close>

fun type_name :: "pytype \<Rightarrow> string" where
  "type_name TDate = ''date''"
| "type_name TList = ''list''"
| "type_name TInt = ''int''"

fun isinstance :: "pyval \<Rightarrow> pytype \<Rightarrow> bool" where
  "isinstance (VDate d) TDate = True"
| "isinstance (VDateTime d) TDate = True"
| "isinstance (VList vs) TList = True"
| "isinstance (VInt i) TInt = True"
| "isinstance (VBool b) TInt = True"
| "isinstance v t = False"

text \<open>The \<^verbatim>\<open>validator\<close> dictionary, in its insertion order (the order of iteration).\<close>

definition validator :: "(string \<times> pytype) list" where
  "validator =
     [(''start_date'', TDate),
      (''end_date'', TDate),
      (''storage_classes'', TList),
      (''max_name_words'', TInt),
      (''max_resource_id_length'', TInt),
      (''max_nodes'', TInt),
      (''max_node_cpu_cores'', TInt),
      (''max_node_memory_gig'', TInt),
      (''max_node_namespaces'', TInt),
      (''max_node_namespace_pods'', TInt),
      (''min_node_namespace_pod_seconds'', TInt),
      (''max_node_namespace_pod_seconds'', TInt),
      (''max_node_namespace_pod_labels'', TInt),
      (''max_node_namespace_volumes'', TInt),
      (''max_node_namespace_volume_request_gig'', TInt),
      (''max_node_namespace_volume_labels'', TInt),
      (''max_node_namespace_volume_volume_claims'', TInt),
      (''max_node_namespace_volume_volume_claim_labels'', TInt),
      (''max_node_namespace_volume_volume_claim_capacity_gig'', TInt)]"

text \<open>\<^verbatim>\<open>sep.join(xs)\<close> and \<^verbatim>\<open>os.linesep\<close> (POSIX).\<close>

fun join :: "string \<Rightarrow> string list \<Rightarrow> string" where
  "join sep [] = []"
| "join sep [x] = x"
| "join sep (x # y # ys) = x @ sep @ join sep (y # ys)"

definition linesep :: string where
  "linesep = [CHR 0x0A]"

definition mismatch :: "(string \<rightharpoonup> pyval) \<Rightarrow> string \<times> pytype \<Rightarrow> bool" where
  "mismatch config kt =
     (case config (fst kt) of None \<Rightarrow> False | Some v \<Rightarrow> \<not> isinstance v (snd kt))"

definition must_be :: "string \<times> pytype \<Rightarrow> string" where
  "must_be kt = fst kt @ '' Must be of type '' @ type_name (snd kt)"

definition validate_config :: "(string \<rightharpoonup> pyval) \<Rightarrow> error + bool" where
  "validate_config config =
     (let result = map must_be (filter (mismatch config) validator)
      in if result \<noteq> [] then Inl (TypeError (join linesep result)) else Inr True)"

section \<open>default_config and init_config\<close>










section \<open>The fake-data provider and the uniqueness caches\<close>

text \<open>
  \<^verbatim>\<open>FAKER\<close> is the one source of randomness. Its generator state is modelled by two
  tapes that are read in order: \<open>int_tape\<close> holds the successive raw draws behind
  \<^verbatim>\<open>random_int\<close>, \<open>word_tape\<close> the successive words returned by \<^verbatim>\<open>words\<close>. The
  tapes are arbitrary, so a statement about every tape is a statement about every
  behaviour of the provider. The two module-level sets \<^verbatim>\<open>SEEN_NAMES\<close> and
  \<^verbatim>\<open>SEEN_RESOURCE_IDS\<close> live in the same state, since they persist between calls.
\<close>

record world =
  int_tape :: "nat \<Rightarrow> int"
  int_pos :: nat
  word_tape :: "nat \<Rightarrow> string"
  word_pos :: nat
  seen_names :: "string set"
  seen_resource_ids :: "string set"

text \<open>
  A computation reads and updates the state; it raises (\<open>Inl\<close>), returns (\<open>Inr\<close>), or,
  for the unbounded retry loop of \<^verbatim>\<open>generate_name\<close>, never returns (\<open>None\<close>).
\<close>

type_synonym 'a gen = "world \<Rightarrow> (error + 'a \<times> world) option"

definition gen_return :: "'a \<Rightarrow> 'a gen" where
  "gen_return x w = Some (Inr (x, w))"

definition gen_raise :: "error \<Rightarrow> 'a gen" where
  "gen_raise err w = Some (Inl err)"

definition gen_bind :: "'a gen \<Rightarrow> ('a \<Rightarrow> 'b gen) \<Rightarrow> 'b gen" where
  "gen_bind m f w =
     (case m w of
        None \<Rightarrow> None
      | Some (Inl err) \<Rightarrow> Some (Inl err)
      | Some (Inr (x, w')) \<Rightarrow> f x w')"

text \<open>
  \<^verbatim>\<open>FAKER.random_int(lo, hi, step)\<close> is \<^verbatim>\<open>random.randrange(lo, hi + 1, step)\<close>: it
  raises \<^verbatim>\<open>ValueError\<close> on a zero step or an empty range, and otherwise returns
  \<open>lo + step * r\<close> for a draw \<open>r\<close> below the number \<open>n\<close> of elements of the range.
\<close>

definition random_int :: "int \<Rightarrow> int \<Rightarrow> int \<Rightarrow> int gen" where
  "random_int lo hi step w =
     (let width = hi + 1 - lo;
          n = (if 0 < step then (width + step - 1) div step else (width + step + 1) div step)
      in if step = 0 \<or> n \<le> 0 then Some (Inl ValueError)
         else Some (Inr (lo + step * (int_tape w (int_pos w) mod n),
                         w\<lparr>int_pos := Suc (int_pos w)\<rparr>)))"

text \<open>\<^verbatim>\<open>FAKER.words(nb)\<close>: a list of \<open>nb\<close> words (none when \<open>nb\<close> is not positive).\<close>

definition words :: "int \<Rightarrow> string list gen" where
  "words nb w =
     Some (Inr (map (word_tape w) [word_pos w ..< word_pos w + nat nb],
                w\<lparr>word_pos := word_pos w + nat nb\<rparr>))"

datatype cache = SEEN_NAMES | SEEN_RESOURCE_IDS

fun cache_get :: "cache \<Rightarrow> world \<Rightarrow> string set" where
  "cache_get SEEN_NAMES w = seen_names w"
| "cache_get SEEN_RESOURCE_IDS w = seen_resource_ids w"

fun cache_add :: "cache \<Rightarrow> string \<Rightarrow> world \<Rightarrow> world" where
  "cache_add SEEN_NAMES x w = w\<lparr>seen_names := insert x (seen_names w)\<rparr>"
| "cache_add SEEN_RESOURCE_IDS x w = w\<lparr>seen_resource_ids := insert x (seen_resource_ids w)\<rparr>"

section \<open>Strings\<close>

definition digit_char :: "nat \<Rightarrow> char" where
  "digit_char d = ''0123456789'' ! d"

text \<open>\<^verbatim>\<open>str(i)\<close> for an integer: the decimal digits, after a minus sign when negative.\<close>

function str_digits :: "int \<Rightarrow> string" where
  "str_digits i =
     (if i < 10 then [digit_char (nat i)]
      else str_digits (i div 10) @ [digit_char (nat (i mod 10))])"
  by pat_completeness auto
termination
  by (relation "measure nat") auto

declare str_digits.simps [simp del]

definition str_int :: "int \<Rightarrow> string" where
  "str_int i = (if i < 0 then CHR ''-'' # str_digits (- i) else str_digits i)"

text \<open>\<^verbatim>\<open>s.zfill(width)\<close>: zeros on the left, after a leading sign, up to the width.\<close>

definition zfill :: "string \<Rightarrow> int \<Rightarrow> string" where
  "zfill s width =
     (let zeros = replicate (nat (width - int (length s))) CHR ''0''
      in case s of
           c # cs \<Rightarrow> if c = CHR ''+'' \<or> c = CHR ''-'' then c # zeros @ cs else zeros @ s
         | [] \<Rightarrow> zeros)"

text \<open>\<^verbatim>\<open>DBL_DASH.sub("-", s)\<close>: every run of hyphens becomes one hyphen.\<close>

fun DBL_DASH_sub :: "string \<Rightarrow> string" where
  "DBL_DASH_sub [] = []"
| "DBL_DASH_sub [c] = [c]"
| "DBL_DASH_sub (c # d # cs) =
     (if c = CHR ''-'' \<and> d = CHR ''-'' then DBL_DASH_sub (d # cs) else c # DBL_DASH_sub (d # cs))"

text \<open>\<^verbatim>\<open>str(d)\<close> for a date and for a datetime.\<close>

definition str_date :: "date \<Rightarrow> string" where
  "str_date d =
     zfill (str_int (year d)) 4 @ ''-'' @ zfill (str_int (month d)) 2 @ ''-''
       @ zfill (str_int (day d)) 2"

definition str_datetime :: "datetime \<Rightarrow> string" where
  "str_datetime t =
     str_date (dt_date t) @ '' '' @ zfill (str_int (int (hour t))) 2 @ '':''
       @ zfill (str_int (int (minute t))) 2 @ '':'' @ zfill (str_int (int (second t))) 2"

definition str_date_value :: "date + datetime \<Rightarrow> string" where
  "str_date_value v = (case v of Inl d \<Rightarrow> str_date d | Inr t \<Rightarrow> str_datetime t)"

section \<open>The configuration read by the generators\<close>

text \<open>
  \<^verbatim>\<open>build_data\<close> and the generators read the configuration by attribute. The record
  holds the known keys with their declared types, as \<^verbatim>\<open>validate_config\<close> leaves them.
\<close>

record config =
  start_date :: "date + datetime"
  end_date :: "date + datetime"
  storage_classes :: "string list"
  max_name_words :: int
  max_resource_id_length :: int
  max_nodes :: int
  max_node_cpu_cores :: int
  max_node_memory_gig :: int
  max_node_namespaces :: int
  max_node_namespace_pods :: int
  min_node_namespace_pod_seconds :: int
  max_node_namespace_pod_seconds :: int
  max_node_namespace_pod_labels :: int
  max_node_namespace_volumes :: int
  max_node_namespace_volume_request_gig :: int
  max_node_namespace_volume_labels :: int
  max_node_namespace_volume_volume_claims :: int
  max_node_namespace_volume_volume_claim_labels :: int
  max_node_namespace_volume_volume_claim_capacity_gig :: int

section \<open>generate_words, generate_number_str, generate_name, generate_labels\<close>

definition generate_words :: "config \<Rightarrow> string gen" where
  "generate_words config = gen_bind (words (max_name_words config)) (\<lambda>ws. gen_return (join ''-'' ws))"

text \<open>
  \<^verbatim>\<open>10 ** n\<close> is a float for a negative \<open>n\<close>, which \<^verbatim>\<open>randrange\<close> rejects.
\<close>

definition generate_number_str :: "config \<Rightarrow> string gen" where
  "generate_number_str config =
     (if max_resource_id_length config < 0 then gen_raise (TypeError ''integer argument expected'')
      else gen_bind (random_int 0 (10 ^ nat (max_resource_id_length config)) 1)
             (\<lambda>i. gen_return (zfill (str_int i) (max_resource_id_length config))))"

text \<open>
  The loop of \<^verbatim>\<open>generate_name\<close>. Each pass first lengthens the prefix and the suffix
  by a hyphen, then draws the middle part, and leaves with the candidate as soon as it
  is not in the cache. The candidate is what the cache stores. (\<open>prefix_str\<close> and
  \<open>suffix_str\<close> are the parameters \<^verbatim>\<open>prefix\<close> and \<^verbatim>\<open>suffix\<close>.)
\<close>

partial_function (option) generate_name_loop ::
  "config \<Rightarrow> string \<Rightarrow> string \<Rightarrow> bool \<Rightarrow> (config \<Rightarrow> string gen) \<Rightarrow> cache \<Rightarrow> world
     \<Rightarrow> (error + string \<times> world) option" where
  "generate_name_loop config prefix_str suffix_str dynamic generator cache w =
     (let prefix_str = (if prefix_str \<noteq> [] then prefix_str @ ''-'' else prefix_str);
          suffix_str = (if suffix_str \<noteq> [] then ''-'' @ suffix_str else suffix_str)
      in case (if dynamic then generator config w else Some (Inr ([], w))) of
           None \<Rightarrow> None
         | Some (Inl err) \<Rightarrow> Some (Inl err)
         | Some (Inr (mid, w)) \<Rightarrow>
             (let new_name = prefix_str @ mid @ suffix_str
              in if new_name \<notin> cache_get cache w
                 then Some (Inr (new_name, cache_add cache new_name w))
                 else generate_name_loop config prefix_str suffix_str dynamic generator cache w))"

declare generate_name_loop.simps [code]

definition generate_name ::
  "config \<Rightarrow> string \<Rightarrow> string \<Rightarrow> bool \<Rightarrow> (config \<Rightarrow> string gen) \<Rightarrow> cache \<Rightarrow> string gen" where
  "generate_name config prefix_str suffix_str dynamic generator cache =
     gen_bind (generate_name_loop config prefix_str suffix_str dynamic generator cache)
       (\<lambda>new_name. gen_return (DBL_DASH_sub new_name))"

definition generate_resource_id :: "config \<Rightarrow> string \<Rightarrow> string \<Rightarrow> bool \<Rightarrow> string gen" where
  "generate_resource_id config prefix_str suffix_str dynamic =
     generate_name config prefix_str suffix_str dynamic generate_number_str SEEN_RESOURCE_IDS"

definition label_pair :: "string \<times> string \<Rightarrow> string" where
  "label_pair e = ''label_'' @ fst e @ '':'' @ snd e"

definition generate_labels :: "int \<Rightarrow> string gen" where
  "generate_labels num_labels =
     gen_bind (words num_labels) (\<lambda>ks.
     gen_bind (words num_labels) (\<lambda>vs.
     gen_return (join ''|'' (map label_pair (zip ks vs)))))"

section \<open>build_data\<close>

record volume_claim =
  vc_name :: string
  pod_name :: string
  vc_labels :: string
  capacity_gig :: int

record volume =
  v_name :: string
  storage_class :: string
  volume_request_gig :: int
  v_labels :: string
  volume_claims :: "volume_claim list"

record pod =
  p_name :: string
  cpu_request :: int
  mem_request_gig :: int
  cpu_limit :: int
  mem_limit_gig :: int
  pod_seconds :: int
  p_labels :: string

record namespace =
  ns_name :: string
  pods :: "pod list"
  volumes :: "volume list"

record node =
  node_name :: string
  cpu_cores :: int
  memory_gig :: int
  resource_id :: string
  namespaces :: "namespace list"

record dataset =
  data_start_date :: string
  data_end_date :: string
  nodes :: "node list"

text \<open>
  \<^verbatim>\<open>xs[i]\<close> on a list: the indices \<open>0\<close> to \<open>len(xs) - 1\<close> count from the front, the
  indices \<open>-1\<close> down to \<open>-len(xs)\<close> from the back, and any other raises \<^verbatim>\<open>IndexError\<close>.
\<close>

definition py_index :: "'a list \<Rightarrow> int \<Rightarrow> 'a gen" where
  "py_index xs i =
     (if 0 \<le> i \<and> i < int (length xs) then gen_return (xs ! nat i)
      else if i < 0 \<and> - int (length xs) \<le> i then gen_return (xs ! nat (int (length xs) + i))
      else gen_raise IndexError)"

text \<open>
  \<^verbatim>\<open>for ix in range(n): ...\<close>, where each pass appends one element to a list: the
  passes run in order, each on the state the previous one left, and an exception ends
  the loop.
\<close>

fun for_each :: "nat list \<Rightarrow> (nat \<Rightarrow> 'a gen) \<Rightarrow> 'a list gen" where
  "for_each [] body = gen_return []"
| "for_each (ix # ixs) body =
     gen_bind (body ix) (\<lambda>x. gen_bind (for_each ixs body) (\<lambda>xs. gen_return (x # xs)))"

definition for_range :: "int \<Rightarrow> (nat \<Rightarrow> 'a gen) \<Rightarrow> 'a list gen" where
  "for_range n body = for_each [0 ..< nat n] body"

text \<open>
  The body of the innermost loop (lines 288 to 303). \<open>randomize\<close> is the parameter
  \<^verbatim>\<open>_random\<close>; \<open>namespace_name\<close> and \<open>namespace_pods\<close> are \<^verbatim>\<open>namespace.name\<close> and
  \<^verbatim>\<open>namespace.pods\<close>, which is complete when the volumes are built.
\<close>

definition build_volume_claim ::
  "config \<Rightarrow> bool \<Rightarrow> string \<Rightarrow> pod list \<Rightarrow> nat \<Rightarrow> volume_claim gen" where
  "build_volume_claim config randomize namespace_name namespace_pods volume_claim_ix =
     gen_bind (if randomize
               then random_int 1 (max_node_namespace_volume_volume_claim_capacity_gig config) 1
               else gen_return (max_node_namespace_volume_volume_claim_capacity_gig config)) (\<lambda>cap.
     gen_bind (py_index namespace_pods
                 (if length namespace_pods \<le> volume_claim_ix then - 1
                  else int volume_claim_ix)) (\<lambda>p.
     gen_bind (generate_name config (namespace_name @ ''-vol-claim'') (str_int (int volume_claim_ix))
                 False generate_words SEEN_NAMES) (\<lambda>name.
     gen_bind (generate_labels (max_node_namespace_volume_volume_claim_labels config)) (\<lambda>labels.
     gen_return \<lparr>vc_name = name, pod_name = p_name p, vc_labels = labels,
                  capacity_gig = cap\<rparr>))))"

text \<open>The body of the volume loop (lines 266 to 303).\<close>

definition build_volume ::
  "config \<Rightarrow> bool \<Rightarrow> string \<Rightarrow> pod list \<Rightarrow> nat \<Rightarrow> volume gen" where
  "build_volume config randomize namespace_name namespace_pods volume_ix =
     gen_bind (if randomize
               then gen_bind (random_int 0 (int (length (storage_classes config)) - 1) 1)
                      (\<lambda>i. py_index (storage_classes config) i)
               else py_index (storage_classes config) 0) (\<lambda>storage_cls.
     gen_bind (if randomize
               then random_int 1 (max_node_namespace_volume_request_gig config) 1
               else gen_return (max_node_namespace_volume_request_gig config)) (\<lambda>vol_req.
     gen_bind (generate_name config (namespace_name @ ''-vol'') (str_int (int volume_ix))
                 False generate_words SEEN_NAMES) (\<lambda>name.
     gen_bind (generate_labels (max_node_namespace_volume_labels config)) (\<lambda>labels.
     gen_bind (if randomize
               then random_int 1 (max_node_namespace_volume_volume_claims config) 1
               else gen_return (max_node_namespace_volume_volume_claims config)) (\<lambda>max_volume_claims.
     gen_bind (for_range max_volume_claims
                 (build_volume_claim config randomize namespace_name namespace_pods)) (\<lambda>claims.
     gen_return \<lparr>v_name = name, storage_class = storage_cls, volume_request_gig = vol_req,
                  v_labels = labels, volume_claims = claims\<rparr>))))))"

text \<open>
  The body of the pod loop (lines 233 to 258); \<open>cores\<close> and \<open>memory\<close> are
  \<^verbatim>\<open>node.cpu_cores\<close> and \<^verbatim>\<open>node.memory_gig\<close>.
\<close>

definition build_pod :: "config \<Rightarrow> bool \<Rightarrow> int \<Rightarrow> int \<Rightarrow> string \<Rightarrow> nat \<Rightarrow> pod gen" where
  "build_pod config randomize cores memory namespace_name pod_ix =
     gen_bind (if randomize
               then gen_bind (random_int 1 cores 1) (\<lambda>cpu_req.
                    gen_bind (random_int 1 memory 1) (\<lambda>mem_req.
                    gen_bind (random_int 1 cores 1) (\<lambda>cpu_lim.
                    gen_bind (random_int 1 memory 1) (\<lambda>mem_lim.
                    gen_bind (random_int (min_node_namespace_pod_seconds config)
                                (max_node_namespace_pod_seconds config)
                                (if max_node_namespace_pod_seconds config div 10 \<noteq> 0
                                 then max_node_namespace_pod_seconds config div 10
                                 else 1800)) (\<lambda>pod_sec.
                    gen_return (cpu_req, mem_req, cpu_lim, mem_lim, pod_sec))))))
               else gen_return (cores, memory, cores, memory,
                                max_node_namespace_pod_seconds config))
       (\<lambda>(cpu_req, mem_req, cpu_lim, mem_lim, pod_sec).
     gen_bind (generate_name config (namespace_name @ ''-pod'') (str_int (int pod_ix))
                 False generate_words SEEN_NAMES) (\<lambda>name.
     gen_bind (generate_labels (max_node_namespace_pod_labels config)) (\<lambda>labels.
     gen_return \<lparr>p_name = name, cpu_request = cpu_req, mem_request_gig = mem_req,
                  cpu_limit = cpu_lim, mem_limit_gig = mem_lim, pod_seconds = pod_sec,
                  p_labels = labels\<rparr>)))"

text \<open>The body of the namespace loop (lines 221 to 303): the pods first, then the volumes.\<close>

definition build_namespace ::
  "config \<Rightarrow> bool \<Rightarrow> string \<Rightarrow> int \<Rightarrow> int \<Rightarrow> nat \<Rightarrow> namespace gen" where
  "build_namespace config randomize node_nm cores memory namespace_ix =
     gen_bind (generate_name config node_nm [] True generate_words SEEN_NAMES) (\<lambda>name.
     gen_bind (if randomize
               then random_int 1 (max_node_namespace_pods config) 1
               else gen_return (max_node_namespace_pods config)) (\<lambda>max_pods.
     gen_bind (for_range max_pods (build_pod config randomize cores memory name)) (\<lambda>ps.
     gen_bind (if randomize
               then random_int 1 (max_node_namespace_volumes config) 1
               else gen_return (max_node_namespace_volumes config)) (\<lambda>max_volumes.
     gen_bind (for_range max_volumes (build_volume config randomize name ps)) (\<lambda>vs.
     gen_return \<lparr>ns_name = name, pods = ps, volumes = vs\<rparr>)))))"

text \<open>The body of the node loop (lines 198 to 303).\<close>

definition build_node :: "config \<Rightarrow> bool \<Rightarrow> nat \<Rightarrow> node gen" where
  "build_node config randomize node_ix =
     gen_bind (if randomize
               then gen_bind (random_int 1 (max_node_cpu_cores config) 1) (\<lambda>cores.
                    gen_bind (random_int 1 (max_node_memory_gig config) 1) (\<lambda>memory.
                    gen_return (cores, memory)))
               else gen_return (max_node_cpu_cores config, max_node_memory_gig config))
       (\<lambda>(cores, memory).
     gen_bind (generate_name config [] [] True generate_words SEEN_NAMES) (\<lambda>name.
     gen_bind (generate_resource_id config [] [] True) (\<lambda>rid.
     gen_bind (if randomize
               then random_int 1 (max_node_namespaces config) 1
               else gen_return (max_node_namespaces config)) (\<lambda>max_namespaces.
     gen_bind (for_range max_namespaces (build_namespace config randomize name cores memory))
       (\<lambda>nss.
     gen_return \<lparr>node_name = name, cpu_cores = cores, memory_gig = memory, resource_id = rid,
                  namespaces = nss\<rparr>)))))"

definition build_data :: "config \<Rightarrow> bool \<Rightarrow> dataset gen" where
  "build_data config randomize =
     gen_bind (if randomize
               then random_int 1 (max_nodes config) 1
               else gen_return (max_nodes config)) (\<lambda>max_nodes.
     gen_bind (for_range max_nodes (build_node config randomize)) (\<lambda>ns.
     gen_return \<lparr>data_start_date = str_date_value (start_date config),
                  data_end_date = str_date_value (end_date config),
                  nodes = ns\<rparr>))"

section \<open>Shapes of the generated entities\<close>

text \<open>
  What every run that returns establishes for each entity, stated once per level of the
  tree; the properties of \<open>build_data\<close> below are read off these.
\<close>

definition count_shape :: "bool \<Rightarrow> int \<Rightarrow> 'a list \<Rightarrow> bool" where
  "count_shape randomize m xs \<longleftrightarrow>
     (if randomize then 1 \<le> int (length xs) \<and> int (length xs) \<le> m else length xs = nat m)"

definition value_shape :: "bool \<Rightarrow> int \<Rightarrow> int \<Rightarrow> bool" where
  "value_shape randomize m x \<longleftrightarrow> (if randomize then 1 \<le> x \<and> x \<le> m else x = m)"

definition seconds_shape :: "config \<Rightarrow> bool \<Rightarrow> int \<Rightarrow> bool" where
  "seconds_shape config randomize x \<longleftrightarrow>
     (if randomize
      then (\<exists>k. 0 \<le> k \<and>
              x = min_node_namespace_pod_seconds config
                    + k * (if max_node_namespace_pod_seconds config div 10 \<noteq> 0
                           then max_node_namespace_pod_seconds config div 10 else 1800))
           \<and> (0 \<le> max_node_namespace_pod_seconds config \<longrightarrow>
                min_node_namespace_pod_seconds config \<le> x
                \<and> x \<le> max_node_namespace_pod_seconds config)
      else x = max_node_namespace_pod_seconds config)"

definition pod_shape :: "config \<Rightarrow> bool \<Rightarrow> int \<Rightarrow> int \<Rightarrow> pod \<Rightarrow> bool" where
  "pod_shape config randomize cores memory p \<longleftrightarrow>
     value_shape randomize cores (cpu_request p) \<and> value_shape randomize cores (cpu_limit p)
     \<and> value_shape randomize memory (mem_request_gig p)
     \<and> value_shape randomize memory (mem_limit_gig p)
     \<and> seconds_shape config randomize (pod_seconds p)"

definition claim_shape :: "config \<Rightarrow> bool \<Rightarrow> pod list \<Rightarrow> nat \<Rightarrow> volume_claim \<Rightarrow> bool" where
  "claim_shape config randomize ps i c \<longleftrightarrow>
     ps \<noteq> []
     \<and> pod_name c = p_name (if i < length ps then ps ! i else last ps)
     \<and> value_shape randomize (max_node_namespace_volume_volume_claim_capacity_gig config)
          (capacity_gig c)"

definition volume_shape :: "config \<Rightarrow> bool \<Rightarrow> pod list \<Rightarrow> volume \<Rightarrow> bool" where
  "volume_shape config randomize ps v \<longleftrightarrow>
     count_shape randomize (max_node_namespace_volume_volume_claims config) (volume_claims v)
     \<and> (\<forall>i < length (volume_claims v). claim_shape config randomize ps i (volume_claims v ! i))
     \<and> storage_class v \<in> set (storage_classes config)
     \<and> value_shape randomize (max_node_namespace_volume_request_gig config) (volume_request_gig v)"

definition namespace_shape :: "config \<Rightarrow> bool \<Rightarrow> int \<Rightarrow> int \<Rightarrow> namespace \<Rightarrow> bool" where
  "namespace_shape config randomize cores memory ns \<longleftrightarrow>
     count_shape randomize (max_node_namespace_pods config) (pods ns)
     \<and> (\<forall>p \<in> set (pods ns). pod_shape config randomize cores memory p)
     \<and> count_shape randomize (max_node_namespace_volumes config) (volumes ns)
     \<and> (\<forall>v \<in> set (volumes ns). volume_shape config randomize (pods ns) v)"

definition node_shape :: "config \<Rightarrow> bool \<Rightarrow> node \<Rightarrow> bool" where
  "node_shape config randomize nd \<longleftrightarrow>
     value_shape randomize (max_node_cpu_cores config) (cpu_cores nd)
     \<and> value_shape randomize (max_node_memory_gig config) (memory_gig nd)
     \<and> count_shape randomize (max_node_namespaces config) (namespaces nd)
     \<and> (\<forall>ns \<in> set (namespaces nd).
           namespace_shape config randomize (cpu_cores nd) (memory_gig nd) ns)"

definition dataset_shape :: "config \<Rightarrow> bool \<Rightarrow> dataset \<Rightarrow> bool" where
  "dataset_shape config randomize d \<longleftrightarrow>
     count_shape randomize (max_nodes config) (nodes d)
     \<and> (\<forall>nd \<in> set (nodes d). node_shape config randomize nd)"

section \<open>Notions used to state the properties of build_data\<close>

text \<open>
  The number of children against its configured maximum, in either mode. In fixed mode
  \<^verbatim>\<open>range(m)\<close> runs \<open>m\<close> times, and not at all when \<open>m\<close> is negative.
\<close>

definition children_count :: "bool \<Rightarrow> int \<Rightarrow> 'a list \<Rightarrow> bool" where
  "children_count randomize m xs \<longleftrightarrow>
     (if randomize then 1 \<le> int (length xs) \<and> int (length xs) \<le> m
      else int (length xs) = max 0 m)"

text \<open>
  \<^verbatim>\<open>s.split(c)\<close>, and the pairs of a labels string: the pieces between the separators
  \<^verbatim>\<open>|\<close>, none for the empty string.
\<close>

fun split_on :: "char \<Rightarrow> string \<Rightarrow> string list" where
  "split_on c [] = [[]]"
| "split_on c (x # xs) =
     (if x = c then [] # split_on c xs
      else (case split_on c xs of [] \<Rightarrow> [[x]] | y # ys \<Rightarrow> (x # y) # ys))"

definition label_fields :: "string \<Rightarrow> string list" where
  "label_fields s = (if s = [] then [] else split_on CHR ''|'' s)"

text \<open>The words of a provider, given by its tape, hold no separator.\<close>

definition pipe_free :: "(nat \<Rightarrow> string) \<Rightarrow> bool" where
  "pipe_free T \<longleftrightarrow> (\<forall>i. CHR ''|'' \<notin> set (T i))"

text \<open>
  A labels string for the count \<open>n\<close> over the provider's words: it joins exactly
  \<open>max 0 n\<close> pairs \<^verbatim>\<open>label_<word>:<word>\<close> of such words with \<^verbatim>\<open>|\<close>, and when the words
  hold no \<^verbatim>\<open>|\<close> these pairs are exactly its pieces.
\<close>

definition label_string :: "(nat \<Rightarrow> string) \<Rightarrow> int \<Rightarrow> string \<Rightarrow> bool" where
  "label_string T n s \<longleftrightarrow>
     (\<exists>ks vs. length ks = nat n \<and> length vs = nat n
        \<and> set ks \<subseteq> range T \<and> set vs \<subseteq> range T
        \<and> s = join ''|'' (map label_pair (zip ks vs))
        \<and> (pipe_free T \<longrightarrow>
              label_fields s = map label_pair (zip ks vs)
              \<and> int (length (label_fields s)) = max 0 n))"

text \<open>
  A computation that, started with the word tape \<open>T\<close>, leaves it in place and returns
  only values with the property \<open>Q\<close>.
\<close>

definition keeps :: "'a gen \<Rightarrow> (nat \<Rightarrow> string) \<Rightarrow> ('a \<Rightarrow> bool) \<Rightarrow> bool" where
  "keeps m T Q \<longleftrightarrow>
     (\<forall>w x w'. word_tape w = T \<longrightarrow> m w = Some (Inr (x, w')) \<longrightarrow> word_tape w' = T \<and> Q x)"

definition volume_labels :: "(nat \<Rightarrow> string) \<Rightarrow> config \<Rightarrow> volume \<Rightarrow> bool" where
  "volume_labels T config v \<longleftrightarrow>
     label_string T (max_node_namespace_volume_labels config) (v_labels v)
     \<and> (\<forall>c \<in> set (volume_claims v).
           label_string T (max_node_namespace_volume_volume_claim_labels config) (vc_labels c))"

definition namespace_labels :: "(nat \<Rightarrow> string) \<Rightarrow> config \<Rightarrow> namespace \<Rightarrow> bool" where
  "namespace_labels T config ns \<longleftrightarrow>
     (\<forall>p \<in> set (pods ns). label_string T (max_node_namespace_pod_labels config) (p_labels p))
     \<and> (\<forall>v \<in> set (volumes ns). volume_labels T config v)"

definition digits_only :: "string \<Rightarrow> bool" where
  "digits_only s \<longleftrightarrow> set s \<subseteq> set ''0123456789''"

section \<open>Concrete inputs\<close>






definition config_two_wrong :: "string \<rightharpoonup> pyval" where
  "config_two_wrong =
     map_of [(''max_nodes'', VStr ''three''),
             (''start_date'', VInt 5),
             (''max_node_cpu_cores'', VInt 4),
             (''owner'', VInt 7)]"

text \<open>
  The scenario of the specification: two nodes, one namespace each, two pods, one volume
  and three volume claims. The provider's words are \<open>w0\<close>, \<open>w1\<close>, \<dots> in order.
\<close>

definition config_scenario :: config where
  "config_scenario =
     \<lparr>start_date = Inl \<lparr>year = 2023, month = 2, day = 1\<rparr>,
      end_date = Inl \<lparr>year = 2023, month = 3, day = 31\<rparr>,
      storage_classes = [''gp2''],
      max_name_words = 2,
      max_resource_id_length = 10,
      max_nodes = 2,
      max_node_cpu_cores = 4,
      max_node_memory_gig = 8,
      max_node_namespaces = 1,
      max_node_namespace_pods = 2,
      min_node_namespace_pod_seconds = 300,
      max_node_namespace_pod_seconds = 3600,
      max_node_namespace_pod_labels = 1,
      max_node_namespace_volumes = 1,
      max_node_namespace_volume_request_gig = 20,
      max_node_namespace_volume_labels = 1,
      max_node_namespace_volume_volume_claims = 3,
      max_node_namespace_volume_volume_claim_labels = 2,
      max_node_namespace_volume_volume_claim_capacity_gig = 20\<rparr>"

definition world_fresh :: world where
  "world_fresh =
     \<lparr>int_tape = (\<lambda>n. 7 * int n + 3), int_pos = 0,
      word_tape = (\<lambda>n. CHR ''w'' # str_int (int n)), word_pos = 0,
      seen_names = {}, seen_resource_ids = {}\<rparr>"

text \<open>The dataset that the scenario yields.\<close>

definition data_scenario :: dataset where
  "data_scenario =
     \<lparr>data_start_date = ''2023-02-01'', data_end_date = ''2023-03-31'',
       nodes =
         [\<lparr>node_name = ''w0-w1'', cpu_cores = 4, memory_gig = 8,
             resource_id = ''0000000003'',
             namespaces =
               [\<lparr>ns_name = ''w0-w1-w2-w3'',
                   pods =
                     [\<lparr>p_name = ''w0-w1-w2-w3-pod-0'', cpu_request = 4,
                         mem_request_gig = 8, cpu_limit = 4,
                         mem_limit_gig = 8, pod_seconds = 3600,
                         p_labels = ''label_w4:w5''\<rparr>,
                      \<lparr>p_name = ''w0-w1-w2-w3-pod-1'', cpu_request = 4,
                         mem_request_gig = 8, cpu_limit = 4,
                         mem_limit_gig = 8, pod_seconds = 3600,
                         p_labels = ''label_w6:w7''\<rparr>],
                   volumes =
                     [\<lparr>v_name = ''w0-w1-w2-w3-vol-0'',
                         storage_class = ''gp2'',
                         volume_request_gig = 20,
                         v_labels = ''label_w8:w9'',
                         volume_claims =
                           [\<lparr>vc_name = ''w0-w1-w2-w3-vol-claim-0'',
                               pod_name = ''w0-w1-w2-w3-pod-0'',
                               vc_labels =
                                 ''label_w10:w12|label_w11:w13'',
                               capacity_gig = 20\<rparr>,
                            \<lparr>vc_name = ''w0-w1-w2-w3-vol-claim-1'',
                               pod_name = ''w0-w1-w2-w3-pod-1'',
                               vc_labels =
                                 ''label_w14:w16|label_w15:w17'',
                               capacity_gig = 20\<rparr>,
                            \<lparr>vc_name = ''w0-w1-w2-w3-vol-claim-2'',
                               pod_name = ''w0-w1-w2-w3-pod-1'',
                               vc_labels =
                                 ''label_w18:w20|label_w19:w21'',
                               capacity_gig = 20\<rparr>]\<rparr>]\<rparr>]\<rparr>,
          \<lparr>node_name = ''w22-w23'', cpu_cores = 4, memory_gig = 8,
             resource_id = ''0000000010'',
             namespaces =
               [\<lparr>ns_name = ''w22-w23-w24-w25'',
                   pods =
                     [\<lparr>p_name = ''w22-w23-w24-w25-pod-0'',
                         cpu_request = 4, mem_request_gig = 8,
                         cpu_limit = 4, mem_limit_gig = 8,
                         pod_seconds = 3600,
                         p_labels = ''label_w26:w27''\<rparr>,
                      \<lparr>p_name = ''w22-w23-w24-w25-pod-1'',
                         cpu_request = 4, mem_request_gig = 8,
                         cpu_limit = 4, mem_limit_gig = 8,
                         pod_seconds = 3600,
                         p_labels = ''label_w28:w29''\<rparr>],
                   volumes =
                     [\<lparr>v_name = ''w22-w23-w24-w25-vol-0'',
                         storage_class = ''gp2'',
                         volume_request_gig = 20,
                         v_labels = ''label_w30:w31'',
                         volume_claims =
                           [\<lparr>vc_name = ''w22-w23-w24-w25-vol-claim-0'',
                               pod_name = ''w22-w23-w24-w25-pod-0'',
                               vc_labels =
                                 ''label_w32:w34|label_w33:w35'',
                               capacity_gig = 20\<rparr>,
                            \<lparr>vc_name = ''w22-w23-w24-w25-vol-claim-1'',
                               pod_name = ''w22-w23-w24-w25-pod-1'',
                               vc_labels =
                                 ''label_w36:w38|label_w37:w39'',
                               capacity_gig = 20\<rparr>,
                            \<lparr>vc_name = ''w22-w23-w24-w25-vol-claim-2'',
                               pod_name = ''w22-w23-w24-w25-pod-1'',
                               vc_labels =
                                 ''label_w40:w42|label_w41:w43'',
                               capacity_gig = 20\<rparr>]\<rparr>]\<rparr>]\<rparr>]\<rparr>"

text \<open>
  A randomized run: the draws make the node have four cores, and the pod request three
  of them under a limit of one.
\<close>

definition world_random :: world where
  "world_random =
     \<lparr>int_tape = (\<lambda>n. if n = 1 then 3 else if n = 6 then 2 else if n = 10 then 4 else 0),
      int_pos = 0,
      word_tape = (\<lambda>n. CHR ''w'' # str_int (int n)), word_pos = 0,
      seen_names = {}, seen_resource_ids = {}\<rparr>"

definition data_random :: dataset where
  "data_random =
     \<lparr>data_start_date = ''2023-02-01'', data_end_date = ''2023-03-31'',
      nodes =
        [\<lparr>node_name = ''w0-w1'', cpu_cores = 4, memory_gig = 1,
           resource_id = ''0000000000'',
           namespaces =
             [\<lparr>ns_name = ''w0-w1-w2-w3'',
                pods =
                  [\<lparr>p_name = ''w0-w1-w2-w3-pod-0'', cpu_request = 3,
                     mem_request_gig = 1, cpu_limit = 1,
                     mem_limit_gig = 1, pod_seconds = 1740,
                     p_labels = ''label_w4:w5''\<rparr>],
                volumes =
                  [\<lparr>v_name = ''w0-w1-w2-w3-vol-0'',
                     storage_class = ''gp2'', volume_request_gig = 1,
                     v_labels = ''label_w6:w7'',
                     volume_claims =
                       [\<lparr>vc_name = ''w0-w1-w2-w3-vol-claim-0'',
                          pod_name = ''w0-w1-w2-w3-pod-0'',
                          vc_labels = ''label_w8:w10|label_w9:w11'',
                          capacity_gig = 1\<rparr>]\<rparr>]\<rparr>]\<rparr>]\<rparr>"

text \<open>The first node of each of the two datasets, with its namespace, pods and volume.\<close>

definition node_scenario :: node where
  "node_scenario = hd (nodes data_scenario)"

definition namespace_scenario :: namespace where
  "namespace_scenario = hd (namespaces node_scenario)"

definition volume_scenario :: volume where
  "volume_scenario = hd (volumes namespace_scenario)"

definition pod_scenario :: pod where
  "pod_scenario = hd (pods namespace_scenario)"

definition node_random :: node where
  "node_random = hd (nodes data_random)"

definition namespace_random :: namespace where
  "namespace_random = hd (namespaces node_random)"

definition pod_random :: pod where
  "pod_random = hd (pods namespace_random)"

text \<open>
  A provider whose first draw for a resource id is the upper bound \<open>10 ^ 10\<close> of the
  range that \<^verbatim>\<open>generate_number_str\<close> asks for.
\<close>

definition world_top_draw :: world where
  "world_top_draw =
     world_fresh\<lparr>int_tape := (\<lambda>n. if n = 0 then 10000000000 else 7 * int n + 3)\<rparr>"

text \<open>
  A provider that returns the word \<open>a\<close> once and the word \<open>b\<close> from then on, for a
  configuration with one-word names, one node and two namespaces.
\<close>

definition config_repeat :: config where
  "config_repeat =
     config_scenario\<lparr>max_name_words := 1, max_nodes := 1, max_node_namespaces := 2,
                      max_node_namespace_pods := 1,
                      max_node_namespace_volume_volume_claims := 1\<rparr>"

definition world_repeat :: world where
  "world_repeat = world_fresh\<lparr>word_tape := (\<lambda>n. if n = 0 then ''a'' else ''b'')\<rparr>"

text \<open>
  Configurations with a negative bound, which \<^verbatim>\<open>validate_config\<close> lets through since it
  tests the type only.
\<close>

definition config_negative_nodes :: config where
  "config_negative_nodes = config_scenario\<lparr>max_nodes := - 1\<rparr>"

definition config_negative_seconds :: config where
  "config_negative_seconds =
     config_scenario\<lparr>min_node_namespace_pod_seconds := 5,
                      max_node_namespace_pod_seconds := - 25\<rparr>"

definition config_negative_labels :: config where
  "config_negative_labels = config_scenario\<lparr>max_node_namespace_pod_labels := - 2\<rparr>"

section \<open>Runs that return\<close>

lemma gen_bind_Inr:
  "gen_bind m f w = Some (Inr (y, w'')) \<longleftrightarrow>
     (\<exists>x w'. m w = Some (Inr (x, w')) \<and> f x w' = Some (Inr (y, w'')))"
  by (auto simp: gen_bind_def split: option.splits sum.splits)

lemma gen_return_Inr: "gen_return x w = Some (Inr (y, w')) \<longleftrightarrow> y = x \<and> w' = w"
  by (auto simp: gen_return_def)

lemma gen_raise_Inr: "gen_raise err w \<noteq> Some (Inr yw)"
  by (simp add: gen_raise_def)

lemma random_int_Inr:
  assumes "random_int lo hi step w = Some (Inr (x, w'))"
  shows "\<exists>k. 0 \<le> k \<and> x = lo + k * step" and "0 < step \<Longrightarrow> lo \<le> x \<and> x \<le> hi"
proof -
  define width where "width = hi + 1 - lo"
  define n where "n = (if 0 < step then (width + step - 1) div step else (width + step + 1) div step)"
  define r where "r = int_tape w (int_pos w) mod n"
  from assms have n: "0 < n" and x: "x = lo + step * r"
    by (auto simp: random_int_def Let_def width_def n_def r_def split: if_splits)
  from n have r: "0 \<le> r" "r < n"
    by (simp_all add: r_def)
  from r x show "\<exists>k. 0 \<le> k \<and> x = lo + k * step"
    by (auto simp: mult.commute)
  show "lo \<le> x \<and> x \<le> hi" if s: "0 < step"
  proof
    from s r have "0 \<le> step * r" by simp
    with x show "lo \<le> x" by simp
    have "step * ((width + step - 1) div step) + (width + step - 1) mod step = width + step - 1"
      by (rule mult_div_mod_eq)
    moreover have "0 \<le> (width + step - 1) mod step"
      using s by (rule pos_mod_sign)
    ultimately have "step * ((width + step - 1) div step) \<le> width + step - 1"
      by linarith
    with s have "step * n \<le> width + step - 1"
      by (simp add: n_def)
    moreover from r s have "step * r \<le> step * (n - 1)"
      by (intro mult_left_mono) auto
    ultimately have "step * r \<le> width - 1"
      by (simp add: right_diff_distrib)
    with x show "x \<le> hi" by (simp add: width_def)
  qed
qed

lemma random_or_max_shape:
  "(if randomize then random_int 1 m 1 else gen_return m) w = Some (Inr (x, w'))
     \<Longrightarrow> value_shape randomize m x"
  using random_int_Inr(2) [of 1 m 1 w x w']
  by (auto simp: value_shape_def gen_return_Inr split: if_splits)

lemma for_each_Inr:
  assumes "for_each ixs body w = Some (Inr (xs, w'))"
    and "\<And>i w x w'. i \<in> set ixs \<Longrightarrow> body i w = Some (Inr (x, w')) \<Longrightarrow> P i x"
  shows "list_all2 P ixs xs"
  using assms
proof (induction ixs arbitrary: w xs)
  case Nil
  then show ?case by (simp add: gen_return_Inr)
next
  case (Cons i ixs)
  from Cons.prems(1) obtain y w1 ys where y: "body i w = Some (Inr (y, w1))"
    and ys: "for_each ixs body w1 = Some (Inr (ys, w'))" and xs: "xs = y # ys"
    by (auto simp: gen_bind_Inr gen_return_Inr)
  have "P i y" using Cons.prems(2) [of i w y w1] y by simp
  moreover have "list_all2 P ixs ys"
    using Cons.IH [OF ys] Cons.prems(2) by simp
  ultimately show ?case by (simp add: xs)
qed

lemma for_range_Inr:
  assumes "for_range n body w = Some (Inr (xs, w'))"
    and "\<And>i w x w'. body i w = Some (Inr (x, w')) \<Longrightarrow> P i x"
  shows "length xs = nat n" and "\<forall>i < length xs. P i (xs ! i)"
proof -
  have l: "list_all2 P [0 ..< nat n] xs"
    using for_each_Inr [of "[0 ..< nat n]" body w xs w' P] assms
    by (simp add: for_range_def)
  then show len: "length xs = nat n"
    by (auto dest: list_all2_lengthD)
  from l show "\<forall>i < length xs. P i (xs ! i)"
    by (auto simp: list_all2_conv_all_nth)
qed

lemma for_range_count:
  assumes "(if randomize then random_int 1 m 1 else gen_return m) w = Some (Inr (n, w1))"
    and "for_range n body w1 = Some (Inr (xs, w'))"
  shows "count_shape randomize m xs"
proof -
  have "length xs = nat n"
    using for_range_Inr(1) [OF assms(2), of "\<lambda>i x. True"] by simp
  moreover have "value_shape randomize m n"
    using assms(1) by (rule random_or_max_shape)
  ultimately show ?thesis
    by (auto simp: count_shape_def value_shape_def)
qed

lemma words_Inr: "words nb w = Some (Inr (ws, w')) \<Longrightarrow> length ws = nat nb"
  by (auto simp: words_def)

lemma gen_bindE:
  assumes "gen_bind m f w = Some (Inr (y, w''))"
  obtains x w' where "m w = Some (Inr (x, w'))" and "f x w' = Some (Inr (y, w''))"
  using assms by (auto simp: gen_bind_Inr)

lemma py_index_Inr:
  assumes "py_index xs i w = Some (Inr (x, w'))"
  shows "xs \<noteq> []" and "x \<in> set xs" and "0 \<le> i \<Longrightarrow> nat i < length xs \<and> x = xs ! nat i"
    and "i = - 1 \<Longrightarrow> x = last xs"
proof -
  from assms consider
      (nonneg) "0 \<le> i" "i < int (length xs)" "x = xs ! nat i"
    | (neg) "i < 0" "- int (length xs) \<le> i" "x = xs ! nat (int (length xs) + i)"
    by (auto simp: py_index_def gen_return_Inr gen_raise_Inr split: if_splits)
  then have ne: "xs \<noteq> []" and mem: "x \<in> set xs"
    by (cases; auto)+
  show "xs \<noteq> []" by (rule ne)
  show "x \<in> set xs" by (rule mem)
  show "nat i < length xs \<and> x = xs ! nat i" if "0 \<le> i"
    using assms that
    by (auto simp: py_index_def gen_return_Inr gen_raise_Inr split: if_splits)
  show "x = last xs" if "i = - 1"
  proof -
    from assms that ne have "x = xs ! nat (int (length xs) - 1)"
      by (auto simp: py_index_def gen_return_Inr gen_raise_Inr split: if_splits)
    moreover have "nat (int (length xs) - 1) = length xs - 1"
      by simp
    ultimately show ?thesis
      using ne by (simp add: last_conv_nth)
  qed
qed

lemma py_index_clamped:
  assumes "py_index ps (if length ps \<le> i then - 1 else int i) w = Some (Inr (p, w'))"
  shows "ps \<noteq> [] \<and> p = (if i < length ps then ps ! i else last ps)"
  using py_index_Inr(1,3,4) [OF assms] by (auto split: if_splits)

lemma build_volume_claim_Inr:
  assumes "build_volume_claim config randomize nsn ps i w = Some (Inr (c, w'))"
  shows "claim_shape config randomize ps i c"
  using assms unfolding build_volume_claim_def
proof (elim gen_bindE)
  fix cap w1 p w2 name w3 labels w4
  assume cap: "(if randomize
           then random_int 1 (max_node_namespace_volume_volume_claim_capacity_gig config) 1
           else gen_return (max_node_namespace_volume_volume_claim_capacity_gig config)) w
            = Some (Inr (cap, w1))"
    and p: "py_index ps (if length ps \<le> i then - 1 else int i) w1 = Some (Inr (p, w2))"
    and labels: "generate_labels (max_node_namespace_volume_volume_claim_labels config) w3
                   = Some (Inr (labels, w4))"
    and c: "gen_return \<lparr>vc_name = name, pod_name = p_name p, vc_labels = labels,
              capacity_gig = cap\<rparr> w4 = Some (Inr (c, w'))"
  from py_index_clamped [OF p] random_or_max_shape [OF cap] c
  show ?thesis
    by (simp add: claim_shape_def gen_return_Inr)
qed

lemma storage_class_Inr:
  assumes "(if randomize
            then gen_bind (random_int 0 (int (length xs) - 1) 1) (py_index xs)
            else py_index xs 0) w = Some (Inr (x, w'))"
  shows "x \<in> set xs"
proof (cases randomize)
  case True
  with assms have "gen_bind (random_int 0 (int (length xs) - 1) 1) (py_index xs) w
                     = Some (Inr (x, w'))"
    by simp
  then obtain i w1 where "py_index xs i w1 = Some (Inr (x, w'))"
    by (rule gen_bindE)
  then show ?thesis by (rule py_index_Inr(2))
next
  case False
  with assms have "py_index xs 0 w = Some (Inr (x, w'))"
    by simp
  then show ?thesis by (rule py_index_Inr(2))
qed

lemma build_volume_Inr:
  assumes "build_volume config randomize nsn ps ix w = Some (Inr (v, w'))"
  shows "volume_shape config randomize ps v"
  using assms unfolding build_volume_def
proof (elim gen_bindE)
  fix storage_cls w1 vol_req w2 name w3 labels w4 max_volume_claims w5 claims w6
  assume sc: "(if randomize
          then gen_bind (random_int 0 (int (length (storage_classes config)) - 1) 1)
                 (py_index (storage_classes config))
          else py_index (storage_classes config) 0) w = Some (Inr (storage_cls, w1))"
    and vr: "(if randomize
              then random_int 1 (max_node_namespace_volume_request_gig config) 1
              else gen_return (max_node_namespace_volume_request_gig config)) w1
               = Some (Inr (vol_req, w2))"
    and labels: "generate_labels (max_node_namespace_volume_labels config) w3
                   = Some (Inr (labels, w4))"
    and mc: "(if randomize
              then random_int 1 (max_node_namespace_volume_volume_claims config) 1
              else gen_return (max_node_namespace_volume_volume_claims config)) w4
               = Some (Inr (max_volume_claims, w5))"
    and cl: "for_range max_volume_claims (build_volume_claim config randomize nsn ps) w5
               = Some (Inr (claims, w6))"
    and v: "gen_return \<lparr>v_name = name, storage_class = storage_cls, volume_request_gig = vol_req,
                 v_labels = labels, volume_claims = claims\<rparr> w6 = Some (Inr (v, w'))"
  have "\<forall>i < length claims. claim_shape config randomize ps i (claims ! i)"
    by (rule for_range_Inr(2) [OF cl, where P = "claim_shape config randomize ps"])
       (rule build_volume_claim_Inr)
  with storage_class_Inr [OF sc] for_range_count [OF mc cl] random_or_max_shape [OF vr]
    v
  show ?thesis
    by (auto simp: volume_shape_def gen_return_Inr)
qed


lemma pod_seconds_Inr:
  assumes "random_int (min_node_namespace_pod_seconds config)
             (max_node_namespace_pod_seconds config)
             (if max_node_namespace_pod_seconds config div 10 \<noteq> 0
              then max_node_namespace_pod_seconds config div 10 else 1800) w
           = Some (Inr (x, w'))"
  shows "seconds_shape config True x"
proof -
  let ?step = "if max_node_namespace_pod_seconds config div 10 \<noteq> 0
               then max_node_namespace_pod_seconds config div 10 else 1800"
  have "0 < ?step" if "0 \<le> max_node_namespace_pod_seconds config"
  proof -
    from that have "0 \<le> max_node_namespace_pod_seconds config div 10"
      by (simp add: pos_imp_zdiv_nonneg_iff)
    then show ?thesis by auto
  qed
  with random_int_Inr [OF assms] show ?thesis
    by (simp add: seconds_shape_def)
qed

lemma random_int_value_shape:
  "random_int 1 m 1 w = Some (Inr (x, w')) \<Longrightarrow> value_shape True m x"
  using random_int_Inr(2) [of 1 m 1 w x w'] by (simp add: value_shape_def)

lemma pod_values_Inr:
  assumes "(if randomize
               then gen_bind (random_int 1 cores 1) (\<lambda>cpu_req.
                    gen_bind (random_int 1 memory 1) (\<lambda>mem_req.
                    gen_bind (random_int 1 cores 1) (\<lambda>cpu_lim.
                    gen_bind (random_int 1 memory 1) (\<lambda>mem_lim.
                    gen_bind (random_int (min_node_namespace_pod_seconds config)
                                (max_node_namespace_pod_seconds config)
                                (if max_node_namespace_pod_seconds config div 10 \<noteq> 0
                                 then max_node_namespace_pod_seconds config div 10
                                 else 1800)) (\<lambda>pod_sec.
                    gen_return (cpu_req, mem_req, cpu_lim, mem_lim, pod_sec))))))
               else gen_return (cores, memory, cores, memory,
                                max_node_namespace_pod_seconds config)) w
            = Some (Inr ((cpu_req, mem_req, cpu_lim, mem_lim, pod_sec), w1))"
  shows "value_shape randomize cores cpu_req \<and> value_shape randomize cores cpu_lim
        \<and> value_shape randomize memory mem_req \<and> value_shape randomize memory mem_lim
        \<and> seconds_shape config randomize pod_sec"
proof (cases randomize)
  case True
  with assms have "gen_bind (random_int 1 cores 1) (\<lambda>cpu_req.
                    gen_bind (random_int 1 memory 1) (\<lambda>mem_req.
                    gen_bind (random_int 1 cores 1) (\<lambda>cpu_lim.
                    gen_bind (random_int 1 memory 1) (\<lambda>mem_lim.
                    gen_bind (random_int (min_node_namespace_pod_seconds config)
                                (max_node_namespace_pod_seconds config)
                                (if max_node_namespace_pod_seconds config div 10 \<noteq> 0
                                 then max_node_namespace_pod_seconds config div 10
                                 else 1800)) (\<lambda>pod_sec.
                    gen_return (cpu_req, mem_req, cpu_lim, mem_lim, pod_sec)))))) w
            = Some (Inr ((cpu_req, mem_req, cpu_lim, mem_lim, pod_sec), w1))"
    by simp
  then show ?thesis
  proof (elim gen_bindE)
    fix a wa b wb c wc d wd e we
    assume a: "random_int 1 cores 1 w = Some (Inr (a, wa))"
      and b: "random_int 1 memory 1 wa = Some (Inr (b, wb))"
      and c: "random_int 1 cores 1 wb = Some (Inr (c, wc))"
      and d: "random_int 1 memory 1 wc = Some (Inr (d, wd))"
      and e: "random_int (min_node_namespace_pod_seconds config)
                (max_node_namespace_pod_seconds config)
                (if max_node_namespace_pod_seconds config div 10 \<noteq> 0
                 then max_node_namespace_pod_seconds config div 10 else 1800) wd
               = Some (Inr (e, we))"
      and r: "gen_return (a, b, c, d, e) we
               = Some (Inr ((cpu_req, mem_req, cpu_lim, mem_lim, pod_sec), w1))"
    from r have "cpu_req = a" "mem_req = b" "cpu_lim = c" "mem_lim = d" "pod_sec = e"
      by (simp_all add: gen_return_Inr)
    with random_int_value_shape [OF a] random_int_value_shape [OF b]
      random_int_value_shape [OF c] random_int_value_shape [OF d] pod_seconds_Inr [OF e] True
    show ?thesis by simp
  qed
next
  case False
  with assms show ?thesis
    by (simp add: gen_return_Inr value_shape_def seconds_shape_def)
qed

lemma build_pod_Inr:
  assumes "build_pod config randomize cores memory nsn ix w = Some (Inr (p, w'))"
  shows "pod_shape config randomize cores memory p"
proof -
  from assms [unfolded build_pod_def] obtain x w1 where
    vals: "(if randomize
               then gen_bind (random_int 1 cores 1) (\<lambda>cpu_req.
                    gen_bind (random_int 1 memory 1) (\<lambda>mem_req.
                    gen_bind (random_int 1 cores 1) (\<lambda>cpu_lim.
                    gen_bind (random_int 1 memory 1) (\<lambda>mem_lim.
                    gen_bind (random_int (min_node_namespace_pod_seconds config)
                                (max_node_namespace_pod_seconds config)
                                (if max_node_namespace_pod_seconds config div 10 \<noteq> 0
                                 then max_node_namespace_pod_seconds config div 10
                                 else 1800)) (\<lambda>pod_sec.
                    gen_return (cpu_req, mem_req, cpu_lim, mem_lim, pod_sec))))))
               else gen_return (cores, memory, cores, memory,
                                max_node_namespace_pod_seconds config)) w
            = Some (Inr (x, w1))"
    and rest: "(case x of (cpu_req, mem_req, cpu_lim, mem_lim, pod_sec) \<Rightarrow>
         gen_bind (generate_name config (nsn @ ''-pod'') (str_int (int ix))
                 False generate_words SEEN_NAMES) (\<lambda>name.
         gen_bind (generate_labels (max_node_namespace_pod_labels config)) (\<lambda>labels.
         gen_return \<lparr>p_name = name, cpu_request = cpu_req, mem_request_gig = mem_req,
                  cpu_limit = cpu_lim, mem_limit_gig = mem_lim, pod_seconds = pod_sec,
                  p_labels = labels\<rparr>))) w1 = Some (Inr (p, w'))"
    by (rule gen_bindE)
  obtain cpu_req mem_req cpu_lim mem_lim pod_sec
    where x: "x = (cpu_req, mem_req, cpu_lim, mem_lim, pod_sec)"
    by (cases x)
  from rest [unfolded x prod.case] show ?thesis
  proof (elim gen_bindE)
    fix name w2 labels w3
    assume labels: "generate_labels (max_node_namespace_pod_labels config) w2
                      = Some (Inr (labels, w3))"
      and p: "gen_return \<lparr>p_name = name, cpu_request = cpu_req, mem_request_gig = mem_req,
                  cpu_limit = cpu_lim, mem_limit_gig = mem_lim, pod_seconds = pod_sec,
                  p_labels = labels\<rparr> w3 = Some (Inr (p, w'))"
    from pod_values_Inr [OF vals [unfolded x]] p
    show ?thesis
      by (auto simp: pod_shape_def gen_return_Inr)
  qed
qed

lemma all_nth_set: "\<forall>i < length xs. P (xs ! i) \<Longrightarrow> \<forall>x \<in> set xs. P x"
  by (auto simp: in_set_conv_nth)

lemma build_namespace_Inr:
  assumes "build_namespace config randomize node_nm cores memory ix w = Some (Inr (ns, w'))"
  shows "namespace_shape config randomize cores memory ns"
  using assms unfolding build_namespace_def
proof (elim gen_bindE)
  fix name w1 max_pods w2 ps w3 max_volumes w4 vs w5
  assume mp: "(if randomize
          then random_int 1 (max_node_namespace_pods config) 1
          else gen_return (max_node_namespace_pods config)) w1 = Some (Inr (max_pods, w2))"
    and ps: "for_range max_pods (build_pod config randomize cores memory name) w2
               = Some (Inr (ps, w3))"
    and mv: "(if randomize
              then random_int 1 (max_node_namespace_volumes config) 1
              else gen_return (max_node_namespace_volumes config)) w3
               = Some (Inr (max_volumes, w4))"
    and vs: "for_range max_volumes (build_volume config randomize name ps) w4
               = Some (Inr (vs, w5))"
    and ns: "gen_return \<lparr>ns_name = name, pods = ps, volumes = vs\<rparr> w5 = Some (Inr (ns, w'))"
  have "\<forall>i < length ps. pod_shape config randomize cores memory (ps ! i)"
    by (rule for_range_Inr(2) [OF ps, where P = "\<lambda>i. pod_shape config randomize cores memory"])
       (rule build_pod_Inr)
  then have 1: "\<forall>p \<in> set ps. pod_shape config randomize cores memory p"
    by (rule all_nth_set)
  have "\<forall>i < length vs. volume_shape config randomize ps (vs ! i)"
    by (rule for_range_Inr(2) [OF vs, where P = "\<lambda>i. volume_shape config randomize ps"])
       (rule build_volume_Inr)
  then have 2: "\<forall>v \<in> set vs. volume_shape config randomize ps v"
    by (rule all_nth_set)
  from ns have "ns = \<lparr>ns_name = name, pods = ps, volumes = vs\<rparr>"
    by (simp add: gen_return_Inr)
  with 1 2 for_range_count [OF mp ps] for_range_count [OF mv vs] show ?thesis
    by (simp add: namespace_shape_def)
qed


lemma node_values_Inr:
  assumes "(if randomize
               then gen_bind (random_int 1 (max_node_cpu_cores config) 1) (\<lambda>cores.
                    gen_bind (random_int 1 (max_node_memory_gig config) 1) (\<lambda>memory.
                    gen_return (cores, memory)))
               else gen_return (max_node_cpu_cores config, max_node_memory_gig config)) w
             = Some (Inr ((cores, memory), w1))"
  shows "value_shape randomize (max_node_cpu_cores config) cores
         \<and> value_shape randomize (max_node_memory_gig config) memory"
proof (cases randomize)
  case True
  with assms have "gen_bind (random_int 1 (max_node_cpu_cores config) 1) (\<lambda>cores.
                    gen_bind (random_int 1 (max_node_memory_gig config) 1) (\<lambda>memory.
                    gen_return (cores, memory))) w = Some (Inr ((cores, memory), w1))"
    by simp
  then show ?thesis
  proof (elim gen_bindE)
    fix a wa b wb
    assume a: "random_int 1 (max_node_cpu_cores config) 1 w = Some (Inr (a, wa))"
      and b: "random_int 1 (max_node_memory_gig config) 1 wa = Some (Inr (b, wb))"
      and r: "gen_return (a, b) wb = Some (Inr ((cores, memory), w1))"
    from r have "cores = a" "memory = b"
      by (simp_all add: gen_return_Inr)
    with random_int_value_shape [OF a] random_int_value_shape [OF b] True
    show ?thesis by simp
  qed
next
  case False
  with assms show ?thesis
    by (simp add: gen_return_Inr value_shape_def)
qed

lemma build_node_Inr:
  assumes "build_node config randomize ix w = Some (Inr (nd, w'))"
  shows "node_shape config randomize nd"
proof -
  from assms [unfolded build_node_def] obtain x w1 where
    vals: "(if randomize
               then gen_bind (random_int 1 (max_node_cpu_cores config) 1) (\<lambda>cores.
                    gen_bind (random_int 1 (max_node_memory_gig config) 1) (\<lambda>memory.
                    gen_return (cores, memory)))
               else gen_return (max_node_cpu_cores config, max_node_memory_gig config)) w
             = Some (Inr (x, w1))"
    and rest: "(case x of (cores, memory) \<Rightarrow>
       gen_bind (generate_name config [] [] True generate_words SEEN_NAMES) (\<lambda>name.
       gen_bind (generate_resource_id config [] [] True) (\<lambda>rid.
       gen_bind (if randomize
                 then random_int 1 (max_node_namespaces config) 1
                 else gen_return (max_node_namespaces config)) (\<lambda>max_namespaces.
       gen_bind (for_range max_namespaces (build_namespace config randomize name cores memory))
         (\<lambda>nss.
       gen_return \<lparr>node_name = name, cpu_cores = cores, memory_gig = memory, resource_id = rid,
                  namespaces = nss\<rparr>))))) w1 = Some (Inr (nd, w'))"
    by (rule gen_bindE)
  obtain cores memory where x: "x = (cores, memory)"
    by (cases x)
  from rest [unfolded x prod.case] show ?thesis
  proof (elim gen_bindE)
    fix name w2 rid w3 max_namespaces w4 nss w5
    assume mn: "(if randomize
              then random_int 1 (max_node_namespaces config) 1
              else gen_return (max_node_namespaces config)) w3
               = Some (Inr (max_namespaces, w4))"
      and nss: "for_range max_namespaces (build_namespace config randomize name cores memory) w4
               = Some (Inr (nss, w5))"
      and nd: "gen_return \<lparr>node_name = name, cpu_cores = cores, memory_gig = memory,
                  resource_id = rid, namespaces = nss\<rparr> w5 = Some (Inr (nd, w'))"
    have "\<forall>i < length nss. namespace_shape config randomize cores memory (nss ! i)"
      by (rule for_range_Inr(2)
                [OF nss, where P = "\<lambda>i. namespace_shape config randomize cores memory"])
         (rule build_namespace_Inr)
    then have 1: "\<forall>ns \<in> set nss. namespace_shape config randomize cores memory ns"
      by (rule all_nth_set)
    from nd have "nd = \<lparr>node_name = name, cpu_cores = cores, memory_gig = memory,
                  resource_id = rid, namespaces = nss\<rparr>"
      by (simp add: gen_return_Inr)
    with 1 node_values_Inr [OF vals [unfolded x]] for_range_count [OF mn nss] show ?thesis
      by (simp add: node_shape_def)
  qed
qed

lemma build_data_Inr:
  assumes "build_data config randomize w = Some (Inr (d, w'))"
  shows "dataset_shape config randomize d"
  using assms unfolding build_data_def
proof (elim gen_bindE)
  fix n w1 ns w2
  assume mn: "(if randomize then random_int 1 (max_nodes config) 1
          else gen_return (max_nodes config)) w = Some (Inr (n, w1))"
    and ns: "for_range n (build_node config randomize) w1 = Some (Inr (ns, w2))"
    and d: "gen_return \<lparr>data_start_date = str_date_value (start_date config),
                  data_end_date = str_date_value (end_date config),
                  nodes = ns\<rparr> w2 = Some (Inr (d, w'))"
  have "\<forall>i < length ns. node_shape config randomize (ns ! i)"
    by (rule for_range_Inr(2) [OF ns, where P = "\<lambda>i. node_shape config randomize"])
       (rule build_node_Inr)
  then have 1: "\<forall>nd \<in> set ns. node_shape config randomize nd"
    by (rule all_nth_set)
  from d have "nodes d = ns"
    by (auto simp: gen_return_Inr)
  with 1 for_range_count [OF mn ns] show ?thesis
    by (simp add: dataset_shape_def)
qed

section \<open>Two concrete runs\<close>

lemma returns_fst:
  "map_option (map_sum id fst) (m w) = Some (Inr d) \<Longrightarrow> \<exists>w'. m w = Some (Inr (d, w'))"
  by (cases "m w") (auto simp: map_sum_def split: sum.splits)

lemma scenario_eval:
  "map_option (map_sum id fst) (build_data config_scenario False world_fresh)
     = Some (Inr data_scenario)"
  by code_simp

lemma scenario_run:
  "\<exists>w'. build_data config_scenario False world_fresh = Some (Inr (data_scenario, w'))"
  using scenario_eval by (rule returns_fst)

lemma random_eval:
  "map_option (map_sum id fst) (build_data config_scenario True world_random)
     = Some (Inr data_random)"
  by code_simp

lemma random_run:
  "\<exists>w'. build_data config_scenario True world_random = Some (Inr (data_random, w'))"
  using random_eval by (rule returns_fst)

lemma scenario_members:
  "node_scenario \<in> set (nodes data_scenario)"
  "namespace_scenario \<in> set (namespaces node_scenario)"
  "volume_scenario \<in> set (volumes namespace_scenario)"
  "pod_scenario \<in> set (pods namespace_scenario)"
  by (simp_all add: pod_scenario_def volume_scenario_def namespace_scenario_def
        node_scenario_def data_scenario_def)

lemma random_members:
  "node_random \<in> set (nodes data_random)"
  "namespace_random \<in> set (namespaces node_random)"
  "pod_random \<in> set (pods namespace_random)"
  by (simp_all add: pod_random_def namespace_random_def node_random_def data_random_def)

section \<open>Decimal strings and resource ids\<close>

lemma digit_char_digit: "d < 10 \<Longrightarrow> digit_char d \<in> set ''0123456789''"
  unfolding digit_char_def by (rule nth_mem) simp

lemma str_digits_digits_only: "0 \<le> i \<Longrightarrow> digits_only (str_digits i)"
proof (induction i rule: str_digits.induct)
  case (1 i)
  show ?case
  proof (cases "i < 10")
    case True
    with 1(2) have "nat i < 10" by simp
    then have "digit_char (nat i) \<in> set ''0123456789''" by (rule digit_char_digit)
    with True show ?thesis
      by (subst str_digits.simps) (simp add: digits_only_def)
  next
    case False
    with 1 have ih: "digits_only (str_digits (i div 10))"
      by simp
    have "nat (i mod 10) < 10" by simp
    then have "digit_char (nat (i mod 10)) \<in> set ''0123456789''" by (rule digit_char_digit)
    with False ih show ?thesis
      by (subst str_digits.simps) (simp add: digits_only_def)
  qed
qed

lemma str_digits_length_le:
  "0 \<le> i \<Longrightarrow> i < 10 ^ k \<Longrightarrow> 0 < k \<Longrightarrow> length (str_digits i) \<le> k"
proof (induction i arbitrary: k rule: str_digits.induct)
  case (1 i)
  show ?case
  proof (cases "i < 10")
    case True
    with 1(4) show ?thesis
      by (subst str_digits.simps) simp
  next
    case False
    from 1(4) obtain j where k: "k = Suc j" by (cases k) auto
    from False 1(3) k have j: "0 < j" by (cases j) auto
    from 1(3) k have "i < 10 * 10 ^ j" by simp
    then have "i div 10 < 10 ^ j" by linarith
    with 1(1) [of j] False 1(2) j have "length (str_digits (i div 10)) \<le> j"
      by simp
    with False k show ?thesis
      by (subst str_digits.simps) simp
  qed
qed

lemma str_digits_power: "length (str_digits (10 ^ k)) = Suc k"
proof (induction k)
  case 0
  show ?case by (subst str_digits.simps) simp
next
  case (Suc k)
  have "(1::int) \<le> 10 ^ k" by (rule one_le_power) simp
  moreover have "(10::int) ^ Suc k = 10 * 10 ^ k" by simp
  ultimately have "\<not> (10::int) ^ Suc k < 10" by linarith
  moreover have "(10::int) ^ Suc k div 10 = 10 ^ k" by simp
  ultimately show ?case
    using Suc by (subst str_digits.simps) simp
qed


lemma str_digits_nonempty: "str_digits i \<noteq> []"
  by (subst str_digits.simps) simp

lemma zfill_digits:
  assumes "digits_only s" and "s \<noteq> []"
  shows "zfill s width = replicate (nat (width - int (length s))) CHR ''0'' @ s"
proof -
  from assms obtain c cs where s: "s = c # cs" by (cases s) auto
  with assms(1) have "c \<in> set ''0123456789''" by (simp add: digits_only_def)
  then have "c \<noteq> CHR ''+''" "c \<noteq> CHR ''-''" by auto
  with s show ?thesis by (simp add: zfill_def)
qed

lemma generate_number_str_Inr:
  assumes "generate_number_str config w = Some (Inr (s, w'))"
  shows "digits_only s"
    and "length s = nat (max_resource_id_length config)
         \<or> length s = Suc (nat (max_resource_id_length config))"
    and "seen_resource_ids w' = seen_resource_ids w"
proof -
  let ?L = "max_resource_id_length config"
  from assms have L: "0 \<le> ?L"
    by (auto simp: generate_number_str_def gen_raise_Inr split: if_splits)
  with assms have "gen_bind (random_int 0 (10 ^ nat ?L) 1)
                     (\<lambda>i. gen_return (zfill (str_int i) ?L)) w = Some (Inr (s, w'))"
    by (simp add: generate_number_str_def)
  then obtain i w1 where i: "random_int 0 (10 ^ nat ?L) 1 w = Some (Inr (i, w1))"
    and r: "gen_return (zfill (str_int i) ?L) w1 = Some (Inr (s, w'))"
    by (rule gen_bindE)
  from random_int_Inr(2) [OF i] have i0: "0 \<le> i" and i1: "i \<le> 10 ^ nat ?L"
    by simp_all
  from i have w1: "seen_resource_ids w1 = seen_resource_ids w"
    by (auto simp: random_int_def Let_def split: if_splits)
  from r have s: "s = zfill (str_int i) ?L" and w': "w' = w1"
    by (simp_all add: gen_return_Inr)
  from i0 have si: "str_int i = str_digits i"
    by (simp add: str_int_def)
  have d: "digits_only (str_digits i)"
    using i0 by (rule str_digits_digits_only)
  have z: "s = replicate (nat (?L - int (length (str_digits i)))) CHR ''0'' @ str_digits i"
    unfolding s si using d str_digits_nonempty by (rule zfill_digits)
  from d show "digits_only s"
    unfolding z by (auto simp: digits_only_def)
  show "seen_resource_ids w' = seen_resource_ids w"
    by (simp add: w' w1)
  show "length s = nat ?L \<or> length s = Suc (nat ?L)"
  proof (cases "i = 10 ^ nat ?L")
    case True
    then have "length (str_digits i) = Suc (nat ?L)"
      by (simp add: str_digits_power)
    then show ?thesis unfolding z by simp
  next
    case False
    with i1 have lt: "i < 10 ^ nat ?L" by simp
    show ?thesis
    proof (cases "0 < nat ?L")
      case True
      with i0 lt have "length (str_digits i) \<le> nat ?L"
        by (rule str_digits_length_le)
      with L show ?thesis unfolding z by simp arith
    next
      case False
      with lt i0 have "i = 0" by simp
      then have "length (str_digits i) = 1"
        by (subst str_digits.simps) simp
      with False show ?thesis unfolding z by simp
    qed
  qed
qed

lemma DBL_DASH_sub_no_hyphen: "CHR ''-'' \<notin> set s \<Longrightarrow> DBL_DASH_sub s = s"
  by (induction s rule: DBL_DASH_sub.induct) auto

lemma digits_only_no_hyphen: "digits_only s \<Longrightarrow> CHR ''-'' \<notin> set s"
  by (auto simp: digits_only_def)

lemma cache_get_add: "cache_get c (cache_add c x w) = insert x (cache_get c w)"
  by (cases c) simp_all

lemma generate_name_loop_fresh:
  assumes "generate_name_loop config p s dyn gen c w = Some y"
  shows "p = [] \<longrightarrow> s = [] \<longrightarrow> dyn \<longrightarrow>
         (\<forall>w x w1. gen config w = Some (Inr (x, w1)) \<longrightarrow> G x \<and> cache_get c w1 = cache_get c w) \<longrightarrow>
         (\<forall>name w'. y = Inr (name, w') \<longrightarrow>
            G name \<and> name \<notin> cache_get c w \<and> cache_get c w' = insert name (cache_get c w))"
proof (rule generate_name_loop.raw_induct
    [OF _ assms,
     where P = "\<lambda>config p s dyn gen c w y. p = [] \<longrightarrow> s = [] \<longrightarrow> dyn \<longrightarrow>
         (\<forall>w x w1. gen config w = Some (Inr (x, w1)) \<longrightarrow> G x \<and> cache_get c w1 = cache_get c w) \<longrightarrow>
         (\<forall>name w'. y = Inr (name, w') \<longrightarrow>
            G name \<and> name \<notin> cache_get c w \<and> cache_get c w' = insert name (cache_get c w))"],
    goal_cases)
  case (1 loop config p s dyn gen c w y)
  show ?case
  proof (intro impI allI)
    fix name w'
    assume p: "p = []" and s: "s = []" and dyn: dyn
      and gen: "\<forall>w x w1. gen config w = Some (Inr (x, w1)) \<longrightarrow> G x \<and> cache_get c w1 = cache_get c w"
      and y: "y = Inr (name, w')"
    from 1(2) p s dyn y obtain mid w1 where mid: "gen config w = Some (Inr (mid, w1))"
      and rest: "(if mid \<notin> cache_get c w1 then Some (Inr (mid, cache_add c mid w1))
                  else loop config [] [] dyn gen c w1) = Some (Inr (name, w'))"
      by (auto simp: Let_def split: option.splits sum.splits)
    from gen mid have G: "G mid" and c1: "cache_get c w1 = cache_get c w" by auto
    show "G name \<and> name \<notin> cache_get c w \<and> cache_get c w' = insert name (cache_get c w)"
    proof (cases "mid \<in> cache_get c w1")
      case False
      with rest have "name = mid" "w' = cache_add c mid w1" by auto
      with False G c1 show ?thesis by (simp add: cache_get_add)
    next
      case True
      with rest have "loop config [] [] dyn gen c w1 = Some (Inr (name, w'))" by simp
      from 1(1) [OF this] gen c1 dyn show ?thesis by simp
    qed
  qed
qed

lemma generate_resource_id_Inr:
  assumes "generate_resource_id config [] [] True w = Some (Inr (rid, w'))"
  shows "rid \<notin> seen_resource_ids w"
    and "seen_resource_ids w' = insert rid (seen_resource_ids w)"
    and "length rid = nat (max_resource_id_length config)
         \<or> length rid = Suc (nat (max_resource_id_length config))"
proof -
  let ?G = "\<lambda>x. digits_only x \<and> (length x = nat (max_resource_id_length config)
              \<or> length x = Suc (nat (max_resource_id_length config)))"
  from assms [unfolded generate_resource_id_def generate_name_def] obtain name w1
    where loop: "generate_name_loop config [] [] True generate_number_str SEEN_RESOURCE_IDS w
                   = Some (Inr (name, w1))"
      and r: "gen_return (DBL_DASH_sub name) w1 = Some (Inr (rid, w'))"
    by (rule gen_bindE)
  have "\<forall>w x w1. generate_number_str config w = Some (Inr (x, w1)) \<longrightarrow>
          ?G x \<and> cache_get SEEN_RESOURCE_IDS w1 = cache_get SEEN_RESOURCE_IDS w"
    using generate_number_str_Inr by simp
  with generate_name_loop_fresh [OF loop, where G = ?G]
  have 1: "?G name" and 2: "name \<notin> seen_resource_ids w"
    and 3: "seen_resource_ids w1 = insert name (seen_resource_ids w)"
    by simp_all
  from 1 have "DBL_DASH_sub name = name"
    by (simp add: DBL_DASH_sub_no_hyphen digits_only_no_hyphen)
  with r have "rid = name" "w' = w1" by (simp_all add: gen_return_Inr)
  with 1 2 3 show "rid \<notin> seen_resource_ids w"
    and "seen_resource_ids w' = insert rid (seen_resource_ids w)"
    and "length rid = nat (max_resource_id_length config)
         \<or> length rid = Suc (nat (max_resource_id_length config))"
    by simp_all
qed

section \<open>Splitting a joined string\<close>

lemma split_on_nonempty: "split_on c s \<noteq> []"
  by (induction s) (auto split: list.splits)

lemma split_on_free: "c \<notin> set x \<Longrightarrow> split_on c x = [x]"
  by (induction x) auto

lemma split_on_append: "c \<notin> set x \<Longrightarrow> split_on c (x @ c # s) = x # split_on c s"
  by (induction x) auto

lemma split_on_join:
  assumes "xs \<noteq> []" and "\<forall>x \<in> set xs. c \<notin> set x"
  shows "split_on c (join [c] xs) = xs"
  using assms
proof (induction "[c]" xs rule: join.induct)
  case 1
  then show ?case by simp
next
  case (2 x)
  then show ?case by (simp add: split_on_free)
next
  case (3 x y ys)
  then have "split_on c (join [c] (y # ys)) = y # ys" by simp
  with 3(3) show ?case by (simp add: split_on_append)
qed

lemma join_Nil_iff: "join sep (x # xs) = [] \<Longrightarrow> x = []"
  by (cases xs) auto

lemma label_pair_pipe_free:
  "CHR ''|'' \<notin> set k \<Longrightarrow> CHR ''|'' \<notin> set v \<Longrightarrow> CHR ''|'' \<notin> set (label_pair (k, v))"
  by (simp add: label_pair_def)

lemma label_pair_nonempty: "label_pair kv \<noteq> []"
  by (simp add: label_pair_def)

lemma label_fields_join:
  assumes "\<forall>kv \<in> set kvs. CHR ''|'' \<notin> set (fst kv) \<and> CHR ''|'' \<notin> set (snd kv)"
  shows "label_fields (join ''|'' (map label_pair kvs)) = map label_pair kvs"
proof (cases kvs)
  case Nil
  then show ?thesis by (simp add: label_fields_def)
next
  case (Cons kv rest)
  have ne: "join ''|'' (map label_pair kvs) \<noteq> []"
    unfolding Cons using join_Nil_iff [of "''|''" "label_pair kv" "map label_pair rest"]
      label_pair_nonempty [of kv] by auto
  have "\<forall>x \<in> set (map label_pair kvs). CHR ''|'' \<notin> set x"
  proof
    fix x assume "x \<in> set (map label_pair kvs)"
    then obtain k v where "(k, v) \<in> set kvs" "x = label_pair (k, v)" by auto
    with assms show "CHR ''|'' \<notin> set x"
      using label_pair_pipe_free [of k v] by auto
  qed
  moreover from Cons have "map label_pair kvs \<noteq> []" by simp
  ultimately have "split_on CHR ''|'' (join [CHR ''|''] (map label_pair kvs)) = map label_pair kvs"
    by (intro split_on_join) auto
  with ne show ?thesis by (simp add: label_fields_def)
qed

lemma label_string_joined:
  assumes "length ks = nat n" and "length vs = nat n"
    and "set ks \<subseteq> range T" and "set vs \<subseteq> range T"
  shows "label_string T n (join ''|'' (map label_pair (zip ks vs)))"
proof -
  have "label_fields (join ''|'' (map label_pair (zip ks vs))) = map label_pair (zip ks vs)
        \<and> int (length (label_fields (join ''|'' (map label_pair (zip ks vs))))) = max 0 n"
    if pf: "pipe_free T"
  proof -
    have "\<forall>kv \<in> set (zip ks vs). CHR ''|'' \<notin> set (fst kv) \<and> CHR ''|'' \<notin> set (snd kv)"
    proof
      fix kv assume "kv \<in> set (zip ks vs)"
      then have "(fst kv, snd kv) \<in> set (zip ks vs)" by simp
      then have "fst kv \<in> set ks" "snd kv \<in> set vs"
        by (rule set_zip_leftD, rule set_zip_rightD)
      with assms(3,4) have "fst kv \<in> range T" "snd kv \<in> range T" by auto
      with pf show "CHR ''|'' \<notin> set (fst kv) \<and> CHR ''|'' \<notin> set (snd kv)"
        by (auto simp: pipe_free_def)
    qed
    then have "label_fields (join ''|'' (map label_pair (zip ks vs))) = map label_pair (zip ks vs)"
      by (rule label_fields_join)
    with assms(1,2) show ?thesis by simp
  qed
  with assms show ?thesis
    unfolding label_string_def by blast
qed

text \<open>Over words without the separator, a labels string determines its count.\<close>

lemma label_string_count:
  assumes "pipe_free T" and "label_string T n s" and "label_string T m s"
  shows "max 0 n = max 0 m"
proof -
  from assms(1,2) have "int (length (label_fields s)) = max 0 n"
    unfolding label_string_def by blast
  moreover from assms(1,3) have "int (length (label_fields s)) = max 0 m"
    unfolding label_string_def by blast
  ultimately show ?thesis by simp
qed

section \<open>The word tape stays in place\<close>

lemma keepsI:
  assumes "\<And>w x w'. word_tape w = T \<Longrightarrow> m w = Some (Inr (x, w')) \<Longrightarrow> word_tape w' = T \<and> Q x"
  shows "keeps m T Q"
  using assms unfolding keeps_def by blast

lemma keepsD:
  assumes "keeps m T Q" and "word_tape w = T" and "m w = Some (Inr (x, w'))"
  shows "word_tape w' = T" and "Q x"
  using assms unfolding keeps_def by blast+

lemma keeps_weaken: "keeps m T P \<Longrightarrow> (\<And>x. P x \<Longrightarrow> Q x) \<Longrightarrow> keeps m T Q"
  unfolding keeps_def by blast

lemma keeps_return: "Q x \<Longrightarrow> keeps (gen_return x) T Q"
  by (rule keepsI) (simp add: gen_return_Inr)

lemma keeps_raise: "keeps (gen_raise err) T Q"
  by (rule keepsI) (simp add: gen_raise_Inr)

lemma keeps_bind:
  assumes "keeps m T P" and "\<And>x. P x \<Longrightarrow> keeps (f x) T Q"
  shows "keeps (gen_bind m f) T Q"
proof (rule keepsI)
  fix w y w''
  assume T: "word_tape w = T" and run: "gen_bind m f w = Some (Inr (y, w''))"
  from run obtain x w' where m: "m w = Some (Inr (x, w'))" and f: "f x w' = Some (Inr (y, w''))"
    by (rule gen_bindE)
  from keepsD [OF assms(1) T m] have T': "word_tape w' = T" and P: "P x" .
  from keepsD [OF assms(2) [OF P] T' f] show "word_tape w'' = T \<and> Q y" by simp
qed

lemma keeps_random_int: "keeps (random_int lo hi step) T (\<lambda>x. True)"
  by (rule keepsI) (auto simp: random_int_def Let_def split: if_splits)

lemma keeps_random_or_max:
  "keeps (if randomize then random_int 1 m 1 else gen_return m) T (\<lambda>x. True)"
  by (simp add: keeps_random_int keeps_return)

lemma keeps_py_index: "keeps (py_index xs i) T (\<lambda>x. True)"
  by (rule keepsI) (auto simp: py_index_def gen_return_Inr gen_raise_Inr split: if_splits)

lemma keeps_words:
  "keeps (words nb) T (\<lambda>ws. length ws = nat nb \<and> set ws \<subseteq> range T)"
  by (rule keepsI) (auto simp: words_def)

lemma keeps_generate_words: "keeps (generate_words config) T (\<lambda>x. True)"
  unfolding generate_words_def
  by (rule keeps_bind [OF keeps_words]) (rule keeps_return, simp)

lemma keeps_generate_number_str: "keeps (generate_number_str config) T (\<lambda>x. True)"
  unfolding generate_number_str_def
  by (auto intro: keeps_raise keeps_bind [OF keeps_random_int] keeps_return)

lemma word_tape_cache_add: "word_tape (cache_add c x w) = word_tape w"
  by (cases c) simp_all

lemma generate_name_loop_tape:
  assumes "generate_name_loop config p s dyn gen c w = Some y"
  shows "(\<forall>cfg. keeps (gen cfg) T (\<lambda>x. True)) \<longrightarrow> word_tape w = T \<longrightarrow>
         (\<forall>name w'. y = Inr (name, w') \<longrightarrow> word_tape w' = T)"
proof (rule generate_name_loop.raw_induct
    [OF _ assms,
     where P = "\<lambda>config p s dyn gen c w y.
         (\<forall>cfg. keeps (gen cfg) T (\<lambda>x. True)) \<longrightarrow> word_tape w = T \<longrightarrow>
         (\<forall>name w'. y = Inr (name, w') \<longrightarrow> word_tape w' = T)"],
    goal_cases)
  case (1 loop config p s dyn gen c w y)
  show ?case
  proof (intro impI allI)
    fix name w'
    assume gen: "\<forall>cfg. keeps (gen cfg) T (\<lambda>x. True)" and T: "word_tape w = T"
      and y: "y = Inr (name, w')"
    let ?p = "if p \<noteq> [] then p @ ''-'' else p"
    let ?s = "if s \<noteq> [] then ''-'' @ s else s"
    from 1(2) y obtain mid w1
      where mid: "(if dyn then gen config w else Some (Inr ([], w))) = Some (Inr (mid, w1))"
      and rest: "(if ?p @ mid @ ?s \<notin> cache_get c w1
                  then Some (Inr (?p @ mid @ ?s, cache_add c (?p @ mid @ ?s) w1))
                  else loop config ?p ?s dyn gen c w1) = Some (Inr (name, w'))"
      by (auto simp: Let_def split: option.splits sum.splits)
    have T1: "word_tape w1 = T"
    proof (cases dyn)
      case True
      with mid have "gen config w = Some (Inr (mid, w1))" by simp
      with gen T show ?thesis by (auto dest: keepsD(1))
    next
      case False
      with mid T show ?thesis by simp
    qed
    show "word_tape w' = T"
    proof (cases "?p @ mid @ ?s \<in> cache_get c w1")
      case False
      with rest have "w' = cache_add c (?p @ mid @ ?s) w1" by auto
      with T1 show ?thesis by (simp add: word_tape_cache_add)
    next
      case True
      with rest have "loop config ?p ?s dyn gen c w1 = Some (Inr (name, w'))" by simp
      from 1(1) [OF this] gen T1 show ?thesis by simp
    qed
  qed
qed

lemma keeps_generate_name:
  assumes "\<And>cfg. keeps (gen cfg) T (\<lambda>x. True)"
  shows "keeps (generate_name config p s dyn gen c) T (\<lambda>x. True)"
  unfolding generate_name_def
proof (rule keeps_bind [where P = "\<lambda>x. True"])
  show "keeps (generate_name_loop config p s dyn gen c) T (\<lambda>x. True)"
  proof (rule keepsI)
    fix w x w'
    assume "word_tape w = T" "generate_name_loop config p s dyn gen c w = Some (Inr (x, w'))"
    with generate_name_loop_tape [of config p s dyn gen c w "Inr (x, w')" T] assms
    show "word_tape w' = T \<and> True" by simp
  qed
  show "keeps (gen_return (DBL_DASH_sub x)) T (\<lambda>x. True)" for x
    by (rule keeps_return) simp
qed

lemma keeps_for_each:
  assumes "\<And>i. keeps (body i) T P"
  shows "keeps (for_each ixs body) T (\<lambda>xs. \<forall>x \<in> set xs. P x)"
proof (induction ixs)
  case Nil
  show ?case by (simp add: keeps_return)
next
  case (Cons i ixs)
  show ?case
    unfolding for_each.simps
  proof (rule keeps_bind [OF assms])
    fix x assume x: "P x"
    show "keeps (gen_bind (for_each ixs body) (\<lambda>xs. gen_return (x # xs))) T
            (\<lambda>xs. \<forall>x \<in> set xs. P x)"
    proof (rule keeps_bind [OF Cons.IH])
      fix xs assume "\<forall>x \<in> set xs. P x"
      with x show "keeps (gen_return (x # xs)) T (\<lambda>xs. \<forall>x \<in> set xs. P x)"
        by (intro keeps_return) simp
    qed
  qed
qed

lemma keeps_for_range:
  assumes "\<And>i. keeps (body i) T P"
  shows "keeps (for_range n body) T (\<lambda>xs. \<forall>x \<in> set xs. P x)"
  unfolding for_range_def using assms by (rule keeps_for_each)

lemma keeps_generate_labels: "keeps (generate_labels n) T (label_string T n)"
  unfolding generate_labels_def
proof (rule keeps_bind [OF keeps_words])
  fix ks assume ks: "length ks = nat n \<and> set ks \<subseteq> range T"
  show "keeps (gen_bind (words n) (\<lambda>vs. gen_return (join ''|'' (map label_pair (zip ks vs))))) T
          (label_string T n)"
  proof (rule keeps_bind [OF keeps_words])
    fix vs assume vs: "length vs = nat n \<and> set vs \<subseteq> range T"
    from ks vs have "label_string T n (join ''|'' (map label_pair (zip ks vs)))"
      by (intro label_string_joined) simp_all
    then show "keeps (gen_return (join ''|'' (map label_pair (zip ks vs)))) T (label_string T n)"
      by (rule keeps_return)
  qed
qed

lemma keeps_build_volume_claim:
  "keeps (build_volume_claim config randomize nsn ps i) T
     (\<lambda>c. label_string T (max_node_namespace_volume_volume_claim_labels config) (vc_labels c))"
  unfolding build_volume_claim_def
  by (rule keeps_bind [OF keeps_random_or_max],
      rule keeps_bind [OF keeps_py_index],
      rule keeps_bind [OF keeps_generate_name [OF keeps_generate_words]],
      rule keeps_bind [OF keeps_generate_labels],
      rule keeps_return, simp)

lemma keeps_storage_class:
  "keeps (if randomize
          then gen_bind (random_int 0 (int (length xs) - 1) 1) (\<lambda>i. py_index xs i)
          else py_index xs 0) T (\<lambda>x. True)"
  by (auto intro: keeps_bind [OF keeps_random_int] keeps_py_index)

lemma keeps_build_volume:
  "keeps (build_volume config randomize nsn ps ix) T (volume_labels T config)"
  unfolding build_volume_def
proof (rule keeps_bind [OF keeps_storage_class],
    rule keeps_bind [OF keeps_random_or_max],
    rule keeps_bind [OF keeps_generate_name [OF keeps_generate_words]],
    rule keeps_bind [OF keeps_generate_labels],
    rule keeps_bind [OF keeps_random_or_max],
    rule keeps_bind [OF keeps_for_range [OF keeps_build_volume_claim]])
  fix storage_cls :: string and vol_req :: int and name labels :: string
    and max_volume_claims :: int and claims :: "volume_claim list"
  assume "label_string T (max_node_namespace_volume_labels config) labels"
    and "\<forall>c \<in> set claims.
           label_string T (max_node_namespace_volume_volume_claim_labels config) (vc_labels c)"
  then show "keeps (gen_return \<lparr>v_name = name, storage_class = storage_cls,
                volume_request_gig = vol_req, v_labels = labels, volume_claims = claims\<rparr>) T
               (volume_labels T config)"
    by (intro keeps_return) (simp add: volume_labels_def)
qed

lemma keeps_pod_values:
  "keeps (if randomize
               then gen_bind (random_int 1 cores 1) (\<lambda>cpu_req.
                    gen_bind (random_int 1 memory 1) (\<lambda>mem_req.
                    gen_bind (random_int 1 cores 1) (\<lambda>cpu_lim.
                    gen_bind (random_int 1 memory 1) (\<lambda>mem_lim.
                    gen_bind (random_int lo hi step) (\<lambda>pod_sec.
                    gen_return (cpu_req, mem_req, cpu_lim, mem_lim, pod_sec))))))
               else gen_return (cores, memory, cores, memory, hi)) T (\<lambda>x. True)"
  by (auto intro!: keeps_bind [OF keeps_random_int] keeps_return)

lemma keeps_build_pod:
  "keeps (build_pod config randomize cores memory nsn ix) T
     (\<lambda>p. label_string T (max_node_namespace_pod_labels config) (p_labels p))"
  unfolding build_pod_def
proof (rule keeps_bind [OF keeps_pod_values])
  fix x :: "int \<times> int \<times> int \<times> int \<times> int"
  obtain cpu_req mem_req cpu_lim mem_lim pod_sec
    where x: "x = (cpu_req, mem_req, cpu_lim, mem_lim, pod_sec)"
    by (cases x)
  show "keeps (case x of (cpu_req, mem_req, cpu_lim, mem_lim, pod_sec) \<Rightarrow>
         gen_bind (generate_name config (nsn @ ''-pod'') (str_int (int ix))
                 False generate_words SEEN_NAMES) (\<lambda>name.
         gen_bind (generate_labels (max_node_namespace_pod_labels config)) (\<lambda>labels.
         gen_return \<lparr>p_name = name, cpu_request = cpu_req, mem_request_gig = mem_req,
                  cpu_limit = cpu_lim, mem_limit_gig = mem_lim, pod_seconds = pod_sec,
                  p_labels = labels\<rparr>))) T
       (\<lambda>p. label_string T (max_node_namespace_pod_labels config) (p_labels p))"
    unfolding x prod.case
    by (rule keeps_bind [OF keeps_generate_name [OF keeps_generate_words]],
        rule keeps_bind [OF keeps_generate_labels],
        rule keeps_return, simp)
qed

lemma keeps_build_namespace:
  "keeps (build_namespace config randomize node_nm cores memory ix) T (namespace_labels T config)"
  unfolding build_namespace_def
proof (rule keeps_bind [OF keeps_generate_name [OF keeps_generate_words]],
    rule keeps_bind [OF keeps_random_or_max],
    rule keeps_bind [OF keeps_for_range [OF keeps_build_pod]],
    rule keeps_bind [OF keeps_random_or_max],
    rule keeps_bind [OF keeps_for_range [OF keeps_build_volume]])
  fix name :: string and max_pods max_volumes :: int and ps :: "pod list" and vs :: "volume list"
  assume "\<forall>p \<in> set ps. label_string T (max_node_namespace_pod_labels config) (p_labels p)"
    and "\<forall>v \<in> set vs. volume_labels T config v"
  then show "keeps (gen_return \<lparr>ns_name = name, pods = ps, volumes = vs\<rparr>) T
               (namespace_labels T config)"
    by (intro keeps_return) (simp add: namespace_labels_def)
qed

lemma keeps_node_values:
  "keeps (if randomize
               then gen_bind (random_int 1 a 1) (\<lambda>cores.
                    gen_bind (random_int 1 b 1) (\<lambda>memory.
                    gen_return (cores, memory)))
               else gen_return (a, b)) T (\<lambda>x. True)"
  by (auto intro!: keeps_bind [OF keeps_random_int] keeps_return)

lemma keeps_build_node:
  "keeps (build_node config randomize ix) T
     (\<lambda>nd. \<forall>ns \<in> set (namespaces nd). namespace_labels T config ns)"
  unfolding build_node_def
proof (rule keeps_bind [OF keeps_node_values])
  fix x :: "int \<times> int"
  obtain cores memory where x: "x = (cores, memory)"
    by (cases x)
  show "keeps (case x of (cores, memory) \<Rightarrow>
       gen_bind (generate_name config [] [] True generate_words SEEN_NAMES) (\<lambda>name.
       gen_bind (generate_resource_id config [] [] True) (\<lambda>rid.
       gen_bind (if randomize
                 then random_int 1 (max_node_namespaces config) 1
                 else gen_return (max_node_namespaces config)) (\<lambda>max_namespaces.
       gen_bind (for_range max_namespaces (build_namespace config randomize name cores memory))
         (\<lambda>nss.
       gen_return \<lparr>node_name = name, cpu_cores = cores, memory_gig = memory, resource_id = rid,
                  namespaces = nss\<rparr>))))) T
      (\<lambda>nd. \<forall>ns \<in> set (namespaces nd). namespace_labels T config ns)"
    unfolding x prod.case generate_resource_id_def
    by (rule keeps_bind [OF keeps_generate_name [OF keeps_generate_words]],
        rule keeps_bind [OF keeps_generate_name [OF keeps_generate_number_str]],
        rule keeps_bind [OF keeps_random_or_max],
        rule keeps_bind [OF keeps_for_range [OF keeps_build_namespace]],
        rule keeps_return, simp)
qed

lemma keeps_build_data:
  "keeps (build_data config randomize) T
     (\<lambda>d. \<forall>nd \<in> set (nodes d). \<forall>ns \<in> set (namespaces nd). namespace_labels T config ns)"
  unfolding build_data_def
  by (rule keeps_bind [OF keeps_random_or_max],
      rule keeps_bind [OF keeps_for_range [OF keeps_build_node]],
      rule keeps_return, simp)

section \<open>Properties of handle_args\<close>




section \<open>Properties of validate_config\<close>


lemma sublist_join: "x \<in> set xs \<Longrightarrow> sublist x (join sep xs)"
proof (induction sep xs rule: join.induct)
  case (1 sep)
  then show ?case by simp
next
  case (2 sep x)
  then show ?case by simp
next
  case (3 sep y z zs)
  show ?case
  proof (cases "x = y")
    case True
    then show ?thesis by (simp add: sublist_append_rightI)
  next
    case False
    with 3 have "sublist x (join sep (z # zs))" by simp
    then show ?thesis
      by (metis join.simps(3) sublist_appendI sublist_append_leftI sublist_order.order.trans sublist_order.order_refl)
  qed
qed

lemma validate_config_cases:
  "validate_config config =
     (if filter (mismatch config) validator = [] then Inr True
      else Inl (TypeError (join linesep (map must_be (filter (mismatch config) validator)))))"
  by (simp add: validate_config_def Let_def)

lemma mismatch_upd_other:
  "k \<noteq> fst kt \<Longrightarrow> mismatch (config(k \<mapsto> v)) kt = mismatch config kt"
  by (simp add: mismatch_def)

lemma filter_mismatch_unknown:
  "k \<notin> fst ` set kts \<Longrightarrow> filter (mismatch (config(k \<mapsto> v))) kts = filter (mismatch config) kts"
proof (rule filter_cong)
  fix kt assume "k \<notin> fst ` set kts" "kt \<in> set kts"
  then have "k \<noteq> fst kt" by auto
  then show "mismatch (config(k \<mapsto> v)) kt = mismatch config kt"
    by (rule mismatch_upd_other)
qed simp

text \<open>
  Claim C7. \<open>validate_config\<close> returns \<open>True\<close> exactly when no known key is present with a
  value that is not an instance of its declared type. Otherwise it raises one
  \<open>TypeError\<close> whose message joins, with the line separator, one line per offending key
  in the order of the validator, so the line of every offending key, with its expected
  type, occurs in the message. A key that the validator does not know changes nothing.
\<close>

theorem validate_config_collects_all:
  "(validate_config config = Inr True
      \<longleftrightarrow> \<not> (\<exists>k t x. (k, t) \<in> set validator \<and> config k = Some x \<and> \<not> isinstance x t))
   \<and> (validate_config config \<noteq> Inr True \<longrightarrow>
        (\<exists>msg. validate_config config = Inl (TypeError msg)
           \<and> msg = join linesep (map must_be (filter (mismatch config) validator))
           \<and> (\<forall>k t x. (k, t) \<in> set validator \<and> config k = Some x \<and> \<not> isinstance x t
                 \<longrightarrow> sublist (k @ '' Must be of type '' @ type_name t) msg)))
   \<and> (k \<notin> fst ` set validator \<longrightarrow> validate_config (config(k \<mapsto> v)) = validate_config config)"
proof -
  have mm: "mismatch config (k, t) \<longleftrightarrow> (\<exists>x. config k = Some x \<and> \<not> isinstance x t)" for k t
    by (auto simp: mismatch_def split: option.splits)
  have empty_iff: "filter (mismatch config) validator = []
      \<longleftrightarrow> \<not> (\<exists>k t x. (k, t) \<in> set validator \<and> config k = Some x \<and> \<not> isinstance x t)"
    by (auto simp: filter_empty_conv mm)
  have a: "validate_config config = Inr True
      \<longleftrightarrow> \<not> (\<exists>k t x. (k, t) \<in> set validator \<and> config k = Some x \<and> \<not> isinstance x t)"
    unfolding empty_iff [symmetric] by (simp add: validate_config_cases)
  have b: "sublist (k @ '' Must be of type '' @ type_name t)
             (join linesep (map must_be (filter (mismatch config) validator)))"
    if "(k, t) \<in> set validator" "config k = Some x" "\<not> isinstance x t" for k t x
  proof -
    from that have "(k, t) \<in> set (filter (mismatch config) validator)"
      by (auto simp: mm)
    then have "must_be (k, t) \<in> set (map must_be (filter (mismatch config) validator))"
      by simp
    then show ?thesis
      using sublist_join by (simp add: must_be_def)
  qed
  have c: "validate_config (config(k \<mapsto> v)) = validate_config config"
    if "k \<notin> fst ` set validator"
    using that by (simp add: validate_config_cases filter_mismatch_unknown)
  show ?thesis
    using a b c by (auto simp: validate_config_cases)
qed

theorem validate_config_collects_all_witness:
  "validate_config config_two_wrong
     = Inl (TypeError (''start_date Must be of type date'' @ linesep @ ''max_nodes Must be of type int''))
   \<and> sublist ''start_date Must be of type date''
        (''start_date Must be of type date'' @ linesep @ ''max_nodes Must be of type int'')
   \<and> sublist ''max_nodes Must be of type int''
        (''start_date Must be of type date'' @ linesep @ ''max_nodes Must be of type int'')
   \<and> validate_config (config_two_wrong(''region'' \<mapsto> VInt 1)) = validate_config config_two_wrong"
proof -
  have v: "validate_config config_two_wrong
     = Inl (TypeError (''start_date Must be of type date'' @ linesep @ ''max_nodes Must be of type int''))"
    by (simp add: validate_config_def validator_def mismatch_def must_be_def config_two_wrong_def)
  have m1: "(''start_date'', TDate) \<in> set validator \<and> config_two_wrong ''start_date'' = Some (VInt 5)
              \<and> \<not> isinstance (VInt 5) TDate"
    by (simp add: validator_def config_two_wrong_def)
  have m2: "(''max_nodes'', TInt) \<in> set validator \<and> config_two_wrong ''max_nodes'' = Some (VStr ''three'')
              \<and> \<not> isinstance (VStr ''three'') TInt"
    by (simp add: validator_def config_two_wrong_def)
  have u: "''region'' \<notin> fst ` set validator"
    by (simp add: validator_def)
  note t = validate_config_collects_all [of config_two_wrong "''region''" "VInt 1"]
  from t v have s: "\<forall>k t x. (k, t) \<in> set validator \<and> config_two_wrong k = Some x \<and> \<not> isinstance x t
                 \<longrightarrow> sublist (k @ '' Must be of type '' @ type_name t)
            (''start_date Must be of type date'' @ linesep @ ''max_nodes Must be of type int'')"
    by auto
  from s m1 have s1: "sublist (''start_date'' @ '' Must be of type '' @ type_name TDate)
            (''start_date Must be of type date'' @ linesep @ ''max_nodes Must be of type int'')"
    by blast
  from s m2 have s2: "sublist (''max_nodes'' @ '' Must be of type '' @ type_name TInt)
            (''start_date Must be of type date'' @ linesep @ ''max_nodes Must be of type int'')"
    by blast
  from t u have s3: "validate_config (config_two_wrong(''region'' \<mapsto> VInt 1)) = validate_config config_two_wrong"
    by blast
  from v s1 s2 s3 show ?thesis by simp
qed

section \<open>Properties of init_config\<close>













section \<open>Properties of build_data\<close>

lemma count_shape_children:
  "count_shape randomize m xs \<Longrightarrow> children_count randomize m xs"
  by (auto simp: count_shape_def children_count_def)

text \<open>
  Claim C3, as amended. For every run of \<open>build_data\<close> that returns, at each level of the
  tree (nodes, namespaces of a node, pods and volumes of a namespace, volume claims of a
  volume): in fixed mode the number of children is the configured maximum, or zero when
  the configured maximum is negative; in randomized mode it lies between one and the
  configured maximum.
\<close>

theorem build_data_cardinalities:
  assumes "build_data config randomize w = Some (Inr (d, w'))"
  shows "children_count randomize (max_nodes config) (nodes d)
     \<and> (\<forall>nd \<in> set (nodes d).
          children_count randomize (max_node_namespaces config) (namespaces nd)
          \<and> (\<forall>ns \<in> set (namespaces nd).
               children_count randomize (max_node_namespace_pods config) (pods ns)
               \<and> children_count randomize (max_node_namespace_volumes config) (volumes ns)
               \<and> (\<forall>v \<in> set (volumes ns).
                    children_count randomize (max_node_namespace_volume_volume_claims config)
                      (volume_claims v))))"
  using build_data_Inr [OF assms]
  by (simp add: dataset_shape_def node_shape_def namespace_shape_def volume_shape_def
        count_shape_children)


text \<open>
  Claim C5, as amended. For every pod of a dataset that \<open>build_data\<close> returns: in
  randomized mode \<open>pod_seconds\<close> is the configured minimum plus a non-negative multiple of
  the step, which is the configured maximum divided by ten, or 1800 when that quotient
  is zero, and it lies between the configured minimum and maximum when the configured
  maximum is not negative; in fixed mode \<open>pod_seconds\<close> is the configured maximum.
\<close>

theorem build_data_pod_seconds:
  assumes "build_data config randomize w = Some (Inr (d, w'))"
    and "nd \<in> set (nodes d)" and "ns \<in> set (namespaces nd)" and "p \<in> set (pods ns)"
  shows "if randomize
         then (\<exists>k. 0 \<le> k \<and>
                  pod_seconds p = min_node_namespace_pod_seconds config
                    + k * (if max_node_namespace_pod_seconds config div 10 \<noteq> 0
                           then max_node_namespace_pod_seconds config div 10 else 1800))
            \<and> (0 \<le> max_node_namespace_pod_seconds config \<longrightarrow>
                 min_node_namespace_pod_seconds config \<le> pod_seconds p
                 \<and> pod_seconds p \<le> max_node_namespace_pod_seconds config)
         else pod_seconds p = max_node_namespace_pod_seconds config"
proof -
  from build_data_Inr [OF assms(1)] assms(2-4)
  have "pod_shape config randomize (cpu_cores nd) (memory_gig nd) p"
    by (simp add: dataset_shape_def node_shape_def namespace_shape_def)
  then show ?thesis
    by (simp add: pod_shape_def seconds_shape_def)
qed

text \<open>
  Claim C2. For every volume claim of a dataset that \<open>build_data\<close> returns: its
  \<open>pod_name\<close> is the name of the pod at the claim's own index in the pod list of the
  owning namespace when that index is below the pod count, and the name of the last pod
  otherwise; so it is the name of one of the namespace's pods.
\<close>

theorem build_data_claim_pod_reference:
  assumes "build_data config randomize w = Some (Inr (d, w'))"
    and "nd \<in> set (nodes d)" and "ns \<in> set (namespaces nd)" and "v \<in> set (volumes ns)"
    and "i < length (volume_claims v)"
  shows "pod_name (volume_claims v ! i)
           = p_name (if i < length (pods ns) then pods ns ! i else last (pods ns))
         \<and> pod_name (volume_claims v ! i) \<in> p_name ` set (pods ns)"
proof -
  from build_data_Inr [OF assms(1)] assms(2-4)
  have "volume_shape config randomize (pods ns) v"
    by (simp add: dataset_shape_def node_shape_def namespace_shape_def)
  with assms(5) have c: "claim_shape config randomize (pods ns) i (volume_claims v ! i)"
    by (simp add: volume_shape_def)
  then have ne: "pods ns \<noteq> []"
    and eq: "pod_name (volume_claims v ! i)
               = p_name (if i < length (pods ns) then pods ns ! i else last (pods ns))"
    by (simp_all add: claim_shape_def)
  from ne have "(if i < length (pods ns) then pods ns ! i else last (pods ns)) \<in> set (pods ns)"
    by simp
  with eq show ?thesis by simp
qed

text \<open>
  Claim C10, as amended. For every pod, volume and volume claim of a dataset that
  \<open>build_data\<close> returns, in either mode: the labels string joins with \<^verbatim>\<open>|\<close> exactly as
  many pairs \<^verbatim>\<open>label_<word>:<word>\<close> of the provider's words as the configured label
  count says, none when that count is negative; and when no word of the provider holds
  a \<^verbatim>\<open>|\<close>, these pairs are exactly the pieces of the string between the separators. The
  count is never sampled.
\<close>

theorem build_data_label_counts:
  assumes "build_data config randomize w = Some (Inr (d, w'))"
    and "nd \<in> set (nodes d)" and "ns \<in> set (namespaces nd)"
  shows "(\<forall>p \<in> set (pods ns).
            label_string (word_tape w) (max_node_namespace_pod_labels config) (p_labels p))
     \<and> (\<forall>v \<in> set (volumes ns).
          label_string (word_tape w) (max_node_namespace_volume_labels config) (v_labels v)
          \<and> (\<forall>c \<in> set (volume_claims v).
               label_string (word_tape w) (max_node_namespace_volume_volume_claim_labels config)
                 (vc_labels c)))"
proof -
  have "\<forall>nd \<in> set (nodes d). \<forall>ns \<in> set (namespaces nd). namespace_labels (word_tape w) config ns"
    by (rule keepsD(2) [OF keeps_build_data refl assms(1)])
  with assms(2,3) have "namespace_labels (word_tape w) config ns"
    by blast
  then show ?thesis
    by (simp add: namespace_labels_def volume_labels_def)
qed

theorem build_data_cardinalities_witness:
  "(\<exists>w'. build_data config_scenario False world_fresh = Some (Inr (data_scenario, w')))
   \<and> int (length (nodes data_scenario)) = 2
   \<and> int (length (namespaces node_scenario)) = 1
   \<and> int (length (pods namespace_scenario)) = 2
   \<and> int (length (volumes namespace_scenario)) = 1
   \<and> int (length (volume_claims volume_scenario)) = 3
   \<and> (\<exists>w'. build_data config_scenario True world_random = Some (Inr (data_random, w')))
   \<and> 1 \<le> int (length (nodes data_random)) \<and> int (length (nodes data_random)) \<le> 2
   \<and> 1 \<le> int (length (pods namespace_random)) \<and> int (length (pods namespace_random)) \<le> 2"
proof -
  from scenario_run obtain w1
    where r1: "build_data config_scenario False world_fresh = Some (Inr (data_scenario, w1))" ..
  from random_run obtain w2
    where r2: "build_data config_scenario True world_random = Some (Inr (data_random, w2))" ..
  from build_data_cardinalities [OF r1] scenario_members
  have "int (length (nodes data_scenario)) = 2
   \<and> int (length (namespaces node_scenario)) = 1
   \<and> int (length (pods namespace_scenario)) = 2
   \<and> int (length (volumes namespace_scenario)) = 1
   \<and> int (length (volume_claims volume_scenario)) = 3"
    by (simp add: children_count_def config_scenario_def)
  moreover from build_data_cardinalities [OF r2] random_members
  have "1 \<le> int (length (nodes data_random)) \<and> int (length (nodes data_random)) \<le> 2
   \<and> 1 \<le> int (length (pods namespace_random)) \<and> int (length (pods namespace_random)) \<le> 2"
    by (simp add: children_count_def config_scenario_def)
  ultimately show ?thesis
    using r1 r2 by blast
qed

theorem build_data_cardinalities_counterexample:
  "map_option (map_sum id (nodes \<circ> fst)) (build_data config_negative_nodes False world_fresh)
     = Some (Inr [])
   \<and> max_nodes config_negative_nodes = - 1
   \<and> int (length ([] :: node list)) \<noteq> max_nodes config_negative_nodes"
  by code_simp


theorem build_data_pod_seconds_witness:
  "0 \<le> max_node_namespace_pod_seconds config_scenario
   \<and> (\<exists>w'. build_data config_scenario False world_fresh = Some (Inr (data_scenario, w')))
   \<and> pod_seconds pod_scenario = 3600
   \<and> (\<exists>w'. build_data config_scenario True world_random = Some (Inr (data_random, w')))
   \<and> 300 \<le> pod_seconds pod_random \<and> pod_seconds pod_random \<le> 3600
   \<and> (\<exists>k. 0 \<le> k \<and> pod_seconds pod_random = 300 + k * 360)"
proof -
  have m: "0 \<le> max_node_namespace_pod_seconds config_scenario"
    by (simp add: config_scenario_def)
  from scenario_run obtain w1
    where r1: "build_data config_scenario False world_fresh = Some (Inr (data_scenario, w1))" ..
  from random_run obtain w2
    where r2: "build_data config_scenario True world_random = Some (Inr (data_random, w2))" ..
  have 1: "pod_seconds pod_scenario = 3600"
    using build_data_pod_seconds [OF r1 scenario_members(1,2,4)]
    by (simp add: config_scenario_def)
  have 2: "300 \<le> pod_seconds pod_random \<and> pod_seconds pod_random \<le> 3600
         \<and> (\<exists>k. 0 \<le> k \<and> pod_seconds pod_random = 300 + k * 360)"
    using build_data_pod_seconds [OF r2 random_members] m
    by (simp add: config_scenario_def)
  from 1 2 m r1 r2 show ?thesis by blast
qed

theorem build_data_pod_seconds_counterexample:
  "map_option (map_sum id (map (map (map pod_seconds \<circ> pods) \<circ> namespaces) \<circ> nodes \<circ> fst))
     (build_data config_negative_seconds True world_random)
     = Some (Inr [[[- 7]]])
   \<and> min_node_namespace_pod_seconds config_negative_seconds = 5
   \<and> max_node_namespace_pod_seconds config_negative_seconds = - 25
   \<and> \<not> (min_node_namespace_pod_seconds config_negative_seconds \<le> - 7
        \<and> - 7 \<le> max_node_namespace_pod_seconds config_negative_seconds)"
  by code_simp

theorem build_data_claim_pod_reference_witness:
  "(\<exists>w'. build_data config_scenario False world_fresh = Some (Inr (data_scenario, w')))
   \<and> 2 < length (volume_claims volume_scenario) \<and> length (pods namespace_scenario) = 2
   \<and> pod_name (volume_claims volume_scenario ! 0) = p_name (pods namespace_scenario ! 0)
   \<and> pod_name (volume_claims volume_scenario ! 1) = p_name (pods namespace_scenario ! 1)
   \<and> pod_name (volume_claims volume_scenario ! 2) = p_name (pods namespace_scenario ! 1)
   \<and> pod_name (volume_claims volume_scenario ! 2) \<in> p_name ` set (pods namespace_scenario)"
proof -
  from scenario_run obtain w1
    where r1: "build_data config_scenario False world_fresh = Some (Inr (data_scenario, w1))" ..
  have l: "length (volume_claims volume_scenario) = 3" "length (pods namespace_scenario) = 2"
    by (simp_all add: volume_scenario_def namespace_scenario_def node_scenario_def
          data_scenario_def)
  then have "last (pods namespace_scenario) = pods namespace_scenario ! 1"
    by (cases "pods namespace_scenario") (auto simp: last_conv_nth)
  with l build_data_claim_pod_reference [OF r1 scenario_members(1,2,3), of 0]
    build_data_claim_pod_reference [OF r1 scenario_members(1,2,3), of 1]
    build_data_claim_pod_reference [OF r1 scenario_members(1,2,3), of 2] r1
  show ?thesis by simp
qed

lemma pipe_free_world_fresh: "pipe_free (word_tape world_fresh)"
proof -
  have "CHR ''|'' \<notin> set (CHR ''w'' # str_int (int i))" for i
  proof -
    have "digits_only (str_digits (int i))"
      by (rule str_digits_digits_only) simp
    then have "CHR ''|'' \<notin> set (str_digits (int i))"
      by (auto simp: digits_only_def)
    then show ?thesis
      by (simp add: str_int_def)
  qed
  then show ?thesis
    by (simp add: pipe_free_def world_fresh_def)
qed

theorem build_data_label_counts_witness:
  "pipe_free (word_tape world_fresh)
   \<and> (\<exists>w'. build_data config_scenario False world_fresh = Some (Inr (data_scenario, w')))
   \<and> int (length (label_fields (p_labels pod_scenario))) = 1
   \<and> int (length (label_fields (v_labels volume_scenario))) = 1
   \<and> int (length (label_fields (vc_labels (hd (volume_claims volume_scenario))))) = 2"
proof -
  have c: "max_node_namespace_pod_labels config_scenario = 1"
    "max_node_namespace_volume_labels config_scenario = 1"
    "max_node_namespace_volume_volume_claim_labels config_scenario = 2"
    by (simp_all add: config_scenario_def)
  have h: "hd (volume_claims volume_scenario) \<in> set (volume_claims volume_scenario)"
    by (simp add: volume_scenario_def namespace_scenario_def node_scenario_def
          data_scenario_def)
  from scenario_run obtain w1
    where r1: "build_data config_scenario False world_fresh = Some (Inr (data_scenario, w1))" ..
  from build_data_label_counts [OF r1 scenario_members(1,2), unfolded c]
    scenario_members(3,4) h
  have "label_string (word_tape world_fresh) 1 (p_labels pod_scenario)"
    and "label_string (word_tape world_fresh) 1 (v_labels volume_scenario)"
    and "label_string (word_tape world_fresh) 2 (vc_labels (hd (volume_claims volume_scenario)))"
    by blast+
  with pipe_free_world_fresh
  have "int (length (label_fields (p_labels pod_scenario))) = 1
   \<and> int (length (label_fields (v_labels volume_scenario))) = 1
   \<and> int (length (label_fields (vc_labels (hd (volume_claims volume_scenario))))) = 2"
    unfolding label_string_def by auto
  with pipe_free_world_fresh r1 show ?thesis by blast
qed

theorem build_data_label_counts_counterexample:
  "map_option (map_sum id (map (map (map p_labels \<circ> pods) \<circ> namespaces) \<circ> nodes \<circ> fst))
     (build_data config_negative_labels False world_fresh)
     = Some (Inr [[['''', '''']], [['''', '''']]])
   \<and> max_node_namespace_pod_labels config_negative_labels = - 2
   \<and> label_fields '''' = []"
  by code_simp

section \<open>Generated names and resource ids\<close>

text \<open>
  Claim C1 does not hold of the code. \<open>generate_name\<close> looks its candidate up in the
  cache before the runs of hyphens are collapsed, and every retry lengthens the prefix
  and the suffix by a hyphen; so a retry finds a candidate that is new to the cache and
  collapses to a name already returned. With a provider that repeats a word, the two
  namespaces of one node, and their pods, get the same names.
\<close>

theorem generate_name_repeats:
  "map_option (map_sum id (map (map ns_name \<circ> namespaces) \<circ> nodes \<circ> fst))
     (build_data config_repeat False world_repeat)
     = Some (Inr [[''a-b'', ''a-b'']])
   \<and> map_option (map_sum id (map (map (map p_name \<circ> pods) \<circ> namespaces) \<circ> nodes \<circ> fst))
       (build_data config_repeat False world_repeat)
     = Some (Inr [[[''a-b-pod-0''], [''a-b-pod-0'']]])"
  by code_simp

text \<open>
  Claim C8 does not hold of the code. \<open>generate_number_str\<close> draws from the range
  \<open>0\<close> to \<open>10 ^ max_resource_id_length\<close> inclusive; when the draw is the upper bound the
  resource id has one digit more than \<open>max_resource_id_length\<close>.
\<close>

theorem resource_id_overlong:
  "map_option (map_sum id (map resource_id \<circ> nodes \<circ> fst))
     (build_data config_scenario False world_top_draw)
     = Some (Inr [''10000000000'', ''0000000010''])
   \<and> max_resource_id_length config_scenario = 10
   \<and> length ''10000000000'' = 11"
  by code_simp

end
